theory Spec2Isabelle
  imports Main "HOL-Library.Product_Lexorder"
begin

text \<open>
  A shallow embedding of the AI move service (\<open>services/QuackleGADDAGAIService.ts\<close>), of
  the dictionary service it waits for and of the board constants (\<open>constants/board.ts\<close>).
  Exceptions and rejected promises are values of \<open>error + 'a\<close> (\<open>Inl\<close> the error), mutable
  fields are passed as state, and what the service calls in modules that are not part of
  the sources is a parameter of the function that calls it.
\<close>

section \<open>Strings\<close>

text \<open>
  JavaScript strings are modelled as \<^typ>\<open>string\<close> restricted to ASCII, which is what the
  word list and the tile letters hold. \<open>toUpperCase\<close> maps \<open>a\<close>..\<open>z\<close> to \<open>A\<close>..\<open>Z\<close> and
  leaves every other character alone; \<open>trim\<close> strips the ASCII white space and line
  terminators (TAB, LF, VT, FF, CR, SPACE) from both ends.
\<close>

definition toUpperChar :: "char \<Rightarrow> char" where
  "toUpperChar c =
     (let n = (of_char c :: nat) in if 97 \<le> n \<and> n \<le> 122 then char_of (n - 32) else c)"

definition toUpperCase :: "string \<Rightarrow> string" where
  "toUpperCase s = map toUpperChar s"

definition isLowerChar :: "char \<Rightarrow> bool" where
  "isLowerChar c = (97 \<le> (of_char c :: nat) \<and> (of_char c :: nat) \<le> 122)"

definition isWhiteSpace :: "char \<Rightarrow> bool" where
  "isWhiteSpace c = ((of_char c :: nat) \<in> {9, 10, 11, 12, 13, 32})"

definition trim :: "string \<Rightarrow> string" where
  "trim s = rev (dropWhile isWhiteSpace (rev (dropWhile isWhiteSpace s)))"

text \<open>\<open>s.split('\n')\<close>: always at least one piece; the pieces hold no line feed.\<close>

fun splitLines :: "string \<Rightarrow> string list" where
  "splitLines [] = [[]]"
| "splitLines (c # cs) =
     (if c = CHR 0x0A then [] # splitLines cs
      else (case splitLines cs of l # ls \<Rightarrow> (c # l) # ls | [] \<Rightarrow> [[c]]))"

text \<open>\<open>haystack.includes(needle)\<close> on strings: \<open>needle\<close> occurs as a substring.\<close>

definition stringIncludes :: "string \<Rightarrow> string \<Rightarrow> bool" where
  "stringIncludes haystack needle =
     list_ex (\<lambda>i. take (length needle) (drop i haystack) = needle) [0..<Suc (length haystack)]"

section \<open>Game types (\<open>types/game\<close>, as far as the AI service reads them)\<close>

datatype MultiplierType = DOUBLE_LETTER | TRIPLE_LETTER | DOUBLE_WORD | TRIPLE_WORD | CENTER

record Tile =
  tile_id :: string
  letter :: string
  tile_value :: int
  isBlank :: bool
  chosenLetter :: "string option"

record PlacedTile =
  placed_tile :: Tile
  placed_row :: nat
  placed_col :: nat

record BoardCell =
  cell_tile :: "Tile option"
  multiplier :: "MultiplierType option"

type_synonym GameBoard = "BoardCell list list"

record Player =
  player_id :: string
  player_name :: string
  tiles :: "Tile list"

record GameState =
  board :: GameBoard
  players :: "Player list"

datatype Direction = H | V

text \<open>A move of the generator (\<open>gaddag/generator\<close>): the fields the service reads.\<close>

record Move =
  word :: string
  move_row :: nat
  move_col :: nat
  dir :: Direction
  score :: int

datatype AIMoveType = WORD | EXCHANGE | PASS

record AIMove =
  move_type :: AIMoveType
  move_tiles :: "PlacedTile list option"
  exchangeTileIds :: "string list option"

datatype error = Error string | TypeError string

section \<open>\<open>convertGaddagMoveToPlacedTiles\<close>\<close>

text \<open>
  \<open>gameBoard[row] && gameBoard[row][col] && gameBoard[row][col].tile\<close>: a row or a cell
  outside the grid is \<open>undefined\<close>, hence falsy, and the position counts as free.
\<close>

definition hasTileAt :: "GameBoard \<Rightarrow> nat \<Rightarrow> nat \<Rightarrow> bool" where
  "hasTileAt gameBoard r c =
     (r < length gameBoard \<and> c < length (gameBoard ! r) \<and> cell_tile (gameBoard ! r ! c) \<noteq> None)"

definition rowAt :: "Move \<Rightarrow> nat \<Rightarrow> nat" where
  "rowAt mv i = (if dir mv = H then move_row mv else move_row mv + i)"

definition colAt :: "Move \<Rightarrow> nat \<Rightarrow> nat" where
  "colAt mv i = (if dir mv = H then move_col mv + i else move_col mv)"

text \<open>The first \<open>find\<close>: an unused rack tile whose letter, in upper case, is the letter needed.\<close>

definition findLetterTile :: "Tile list \<Rightarrow> string list \<Rightarrow> string \<Rightarrow> Tile option" where
  "findLetterTile playerTiles usedTileIds l =
     find (\<lambda>t. toUpperCase (letter t) = l \<and> tile_id t \<notin> set usedTileIds) playerTiles"

text \<open>The second \<open>find\<close>: an unused blank.\<close>

definition findBlankTile :: "Tile list \<Rightarrow> string list \<Rightarrow> Tile option" where
  "findBlankTile playerTiles usedTileIds =
     find (\<lambda>t. isBlank t \<and> tile_id t \<notin> set usedTileIds) playerTiles"

definition asBlankFor :: "Tile \<Rightarrow> string \<Rightarrow> Tile" where
  "asBlankFor blankTile l = blankTile\<lparr>chosenLetter := Some l, tile_value := 0, isBlank := True\<rparr>"

definition availableTile :: "Tile list \<Rightarrow> string list \<Rightarrow> string \<Rightarrow> Tile option" where
  "availableTile playerTiles usedTileIds l =
     (case findLetterTile playerTiles usedTileIds l of
        Some t \<Rightarrow> Some t
      | None \<Rightarrow>
          (case findBlankTile playerTiles usedTileIds of
             Some blankTile \<Rightarrow> Some (asBlankFor blankTile l)
           | None \<Rightarrow> None))"

text \<open>
  The \<open>for\<close> loop over the letters of the word. The state is \<open>(placedTiles, usedTileIds)\<close>;
  \<open>cs\<close> holds the letters from index \<open>i\<close> on. \<open>None\<close> is the early \<open>return []\<close>.
\<close>

fun placeLoop ::
  "Move \<Rightarrow> Tile list \<Rightarrow> GameBoard \<Rightarrow> string \<Rightarrow> nat \<Rightarrow> PlacedTile list \<times> string list
     \<Rightarrow> (PlacedTile list \<times> string list) option" where
  "placeLoop mv playerTiles gameBoard [] i st = Some st"
| "placeLoop mv playerTiles gameBoard (c # cs) i (placedTiles, usedTileIds) =
     (if hasTileAt gameBoard (rowAt mv i) (colAt mv i)
      then placeLoop mv playerTiles gameBoard cs (Suc i) (placedTiles, usedTileIds)
      else
        (case availableTile playerTiles usedTileIds (toUpperCase [c]) of
           Some t \<Rightarrow>
             placeLoop mv playerTiles gameBoard cs (Suc i)
               (placedTiles @ [\<lparr>placed_tile = t, placed_row = rowAt mv i, placed_col = colAt mv i\<rparr>],
                usedTileIds @ [tile_id t])
         | None \<Rightarrow> None))"

definition convertGaddagMoveToPlacedTiles :: "Move \<Rightarrow> Tile list \<Rightarrow> GameBoard \<Rightarrow> PlacedTile list" where
  "convertGaddagMoveToPlacedTiles mv playerTiles gameBoard =
     (case placeLoop mv playerTiles gameBoard (word mv) 0 ([], []) of
        Some (placedTiles, usedTileIds) \<Rightarrow> placedTiles
      | None \<Rightarrow> [])"

section \<open>\<open>generateStrategicExchange\<close>\<close>

definition isVowel :: "Tile \<Rightarrow> bool" where
  "isVowel t = stringIncludes ''AEIOU'' (toUpperCase (letter t))"

text \<open>
  The comparator puts consonants before vowels and, within each, lower values first;
  \<open>Array.prototype.sort\<close> is stable, as is \<^const>\<open>sort_key\<close>. \<open>rnd\<close> stands for
  \<open>Math.floor(Math.random() * 3)\<close>, one of 0, 1, 2.
\<close>

definition generateStrategicExchange :: "nat \<Rightarrow> Tile list \<Rightarrow> AIMove" where
  "generateStrategicExchange rnd ts =
     (let tileValues = sort_key (\<lambda>t. (isVowel t, tile_value t)) ts;
          exchangeCount = min (max 3 (rnd + 3)) (length ts);
          tilesToExchange = take exchangeCount tileValues
      in \<lparr>move_type = EXCHANGE, move_tiles = None,
           exchangeTileIds = Some (map tile_id tilesToExchange)\<rparr>)"

section \<open>\<open>generateMove\<close>\<close>

text \<open>
  \<open>Promise.race([p, timer])\<close>: \<open>settled\<close> is how \<open>p\<close> has settled when the timer fires,
  \<open>None\<close> if it is still pending; the timer then rejects with \<open>new Error(msg)\<close>.
\<close>

definition raceWithTimeout :: "(error + 'a) option \<Rightarrow> string \<Rightarrow> error + 'a" where
  "raceWithTimeout settled msg = (case settled of Some r \<Rightarrow> r | None \<Rightarrow> Inl (Error msg))"

record Validation =
  isValid :: bool
  errors :: "string list"

text \<open>
  The private state of the service. \<open>initPromise\<close> holds the number of the promise it
  remembers; \<open>generateMove\<close> reads \<open>gaddag\<close> and \<open>dictionary\<close> after its wait for the
  initialization.
\<close>

record 'g Service =
  gaddag :: "'g option"
  dictionary :: "string set option"
  initPromise :: "nat option"
  isInitializing :: bool

text \<open>
  What \<open>generateMove\<close> calls outside \<open>QuackleGADDAGAIService.ts\<close>, taken as parameters:
  \<^item> \<open>initSettled\<close>: the settlement of \<open>ensureInitialized()\<close> within 3000 ms;
  \<^item> \<open>newBoard\<close>: \<open>new Board(dictionary)\<close> of \<open>gaddag/board\<close> (it may throw);
  \<^item> \<open>placeWords\<close>: the calls of \<open>board.place\<close>, one for every group that
    \<open>groupTilesIntoWords\<close> makes of the tiles found on the grid (they may throw);
  \<^item> \<open>generateMoves\<close>: the settlement of \<open>gaddagBoard.generateMoves(rack, gaddag)\<close> within
    2000 ms;
  \<^item> \<open>validateMove\<close> of \<open>wordValidator\<close> (it may reject);
  \<^item> \<open>random3\<close>: \<open>Math.floor(Math.random() * 3)\<close>.
\<close>

record ('g, 'b) Collaborators =
  initSettled :: "(error + unit) option"
  newBoard :: "string set \<Rightarrow> error + 'b"
  placeWords :: "'b \<Rightarrow> (nat \<times> nat \<times> nat option) list \<Rightarrow> GameBoard \<Rightarrow> error + 'b"
  generateMoves :: "'b \<Rightarrow> string \<Rightarrow> 'g \<Rightarrow> (error + Move list) option"
  validateMove :: "PlacedTile list \<Rightarrow> GameBoard \<Rightarrow> error + Validation"
  random3 :: nat

definition BOARD_SIZE :: nat where
  "BOARD_SIZE = 15"

text \<open>
  The double loop of \<open>convertToGaddagBoard\<close> reads \<open>gameBoard[row][col].tile\<close> for every
  \<open>row, col < BOARD_SIZE\<close>: a missing row or cell raises a \<open>TypeError\<close>. For every tile
  it finds it records the row, the column and \<open>letter.toUpperCase().charCodeAt(0)\<close>, which
  is \<open>NaN\<close> (here \<open>None\<close>) for an empty letter.
\<close>

definition gridComplete :: "GameBoard \<Rightarrow> bool" where
  "gridComplete gameBoard =
     (BOARD_SIZE \<le> length gameBoard \<and> list_all (\<lambda>r. BOARD_SIZE \<le> length r) (take BOARD_SIZE gameBoard))"

definition charCodeAt0 :: "string \<Rightarrow> nat option" where
  "charCodeAt0 s = (case s of [] \<Rightarrow> None | c # cs \<Rightarrow> Some (of_char c))"

definition existingTiles :: "GameBoard \<Rightarrow> error + (nat \<times> nat \<times> nat option) list" where
  "existingTiles gameBoard =
     (if \<not> gridComplete gameBoard
      then Inl (TypeError ''Cannot read properties of undefined'')
      else Inr (concat (map (\<lambda>row. concat (map (\<lambda>col.
                  (case cell_tile (gameBoard ! row ! col) of
                     Some t \<Rightarrow> [(row, col, charCodeAt0 (toUpperCase (letter t)))]
                   | None \<Rightarrow> [])) [0..<BOARD_SIZE])) [0..<BOARD_SIZE])))"

definition convertToGaddagBoard ::
  "('g, 'b) Collaborators \<Rightarrow> 'g Service \<Rightarrow> GameBoard \<Rightarrow> error + 'b" where
  "convertToGaddagBoard env svc gameBoard =
     (case dictionary svc of
        None \<Rightarrow> Inl (Error ''Dictionary not initialized'')
      | Some d \<Rightarrow>
          (case newBoard env d of
             Inl e \<Rightarrow> Inl e
           | Inr emptyBoard \<Rightarrow>
               (case existingTiles gameBoard of
                  Inl e \<Rightarrow> Inl e
                | Inr found \<Rightarrow> placeWords env emptyBoard found gameBoard)))"

definition convertTilesToRack :: "Tile list \<Rightarrow> string" where
  "convertTilesToRack ts = concat (map (\<lambda>t. if isBlank t then ''?'' else toUpperCase (letter t)) ts)"

text \<open>
  The loop over \<open>moves.slice(0, 15)\<close>: \<open>Some\<close> is the \<open>return\<close> of a WORD move from inside
  the loop, \<open>None\<close> is falling out of it. An exception of the validator is caught per move.
\<close>

fun tryMoves ::
  "('g, 'b) Collaborators \<Rightarrow> Tile list \<Rightarrow> GameBoard \<Rightarrow> Move list \<Rightarrow> AIMove option" where
  "tryMoves env playerTiles gameBoard [] = None"
| "tryMoves env playerTiles gameBoard (move # rest) =
     (let placedTiles = convertGaddagMoveToPlacedTiles move playerTiles gameBoard
      in case validateMove env placedTiles gameBoard of
           Inr validation \<Rightarrow>
             if isValid validation
             then Some \<lparr>move_type = WORD, move_tiles = Some placedTiles, exchangeTileIds = None\<rparr>
             else tryMoves env playerTiles gameBoard rest
         | Inl moveError \<Rightarrow> tryMoves env playerTiles gameBoard rest)"

text \<open>The body of the outer \<open>try\<close>: \<open>Inl\<close> is an exception on its way to the \<open>catch\<close>.\<close>

definition searchMove ::
  "('g, 'b) Collaborators \<Rightarrow> 'g Service \<Rightarrow> 'g \<Rightarrow> GameState \<Rightarrow> Player \<Rightarrow> error + AIMove" where
  "searchMove env svc g gameState player =
     (case convertToGaddagBoard env svc (board gameState) of
        Inl e \<Rightarrow> Inl e
      | Inr gaddagBoard \<Rightarrow>
          (let rack = convertTilesToRack (tiles player)
           in case raceWithTimeout (generateMoves env gaddagBoard rack g) ''Move generation timeout'' of
                Inl e \<Rightarrow> Inl e
              | Inr moves \<Rightarrow>
                  if length moves = 0
                  then Inr (generateStrategicExchange (random3 env) (tiles player))
                  else
                    (case tryMoves env (tiles player) (board gameState) (take 15 moves) of
                       Some aiMove \<Rightarrow> Inr aiMove
                     | None \<Rightarrow> Inr (generateStrategicExchange (random3 env) (tiles player)))))"

text \<open>
  \<open>generateMove\<close>; \<open>svc\<close> is the service as it is once the wait for the initialization is
  over. The result is the settlement of the returned promise: \<open>Inl\<close> a rejection.
\<close>

definition generateMove ::
  "('g, 'b) Collaborators \<Rightarrow> 'g Service \<Rightarrow> GameState \<Rightarrow> string \<Rightarrow> error + AIMove" where
  "generateMove env svc gameState playerId =
     (case find (\<lambda>p. player_id p = playerId) (players gameState) of
        None \<Rightarrow> Inr \<lparr>move_type = PASS, move_tiles = None, exchangeTileIds = None\<rparr>
      | Some player \<Rightarrow>
          (case raceWithTimeout (initSettled env) ''AI initialization timeout'' of
             Inl e \<Rightarrow> Inr (generateStrategicExchange (random3 env) (tiles player))
           | Inr u \<Rightarrow>
               (case gaddag svc of
                  None \<Rightarrow> Inr (generateStrategicExchange (random3 env) (tiles player))
                | Some g \<Rightarrow>
                    if dictionary svc = None
                    then Inr (generateStrategicExchange (random3 env) (tiles player))
                    else
                      (case searchMove env svc g gameState player of
                         Inr aiMove \<Rightarrow> Inr aiMove
                       | Inl e \<Rightarrow> Inr (generateStrategicExchange (random3 env) (tiles player))))))"

text \<open>A candidate passes when the validator answers, and answers \<open>isValid\<close>.\<close>

definition passesValidation ::
  "('g, 'b) Collaborators \<Rightarrow> Tile list \<Rightarrow> GameBoard \<Rightarrow> Move \<Rightarrow> bool" where
  "passesValidation env playerTiles gameBoard move =
     (case validateMove env (convertGaddagMoveToPlacedTiles move playerTiles gameBoard) gameBoard of
        Inr validation \<Rightarrow> isValid validation
      | Inl moveError \<Rightarrow> False)"

section \<open>Loading the word list\<close>

text \<open>
  The file system as the two calls see it: \<open>None\<close> where \<open>existsSync\<close> is false, and for
  a file that exists either its content or the exception \<open>readFileSync\<close> throws.
\<close>

datatype fsEntry = Readable string | Unreadable error

type_synonym fileSystem = "string \<Rightarrow> fsEntry option"

text \<open>\<open>path.join\<close>, without its normalisation of the result.\<close>

fun pathJoin :: "string list \<Rightarrow> string" where
  "pathJoin [] = ''.''"
| "pathJoin [p] = p"
| "pathJoin (p # ps) = p @ ''/'' @ pathJoin ps"

definition possiblePaths :: "string \<Rightarrow> string \<Rightarrow> string list" where
  "possiblePaths cwd dirname =
     [pathJoin [cwd, ''public'', ''sowpods.txt''],
      pathJoin [cwd, ''src'', ''services'', ''gaddag'', ''sowpods.txt''],
      pathJoin [dirname, ''gaddag'', ''sowpods.txt'']]"

text \<open>The \<open>for\<close> loop over the paths stops at the first one that exists.\<close>

fun firstExisting :: "fileSystem \<Rightarrow> string list \<Rightarrow> fsEntry option" where
  "firstExisting fs [] = None"
| "firstExisting fs (localPath # rest) =
     (case fs localPath of Some f \<Rightarrow> Some f | None \<Rightarrow> firstExisting fs rest)"

text \<open>\<open>content.trim().split('\n').map(word => word.trim().toUpperCase())\<close>\<close>

definition parseWords :: "string \<Rightarrow> string list" where
  "parseWords content = map (\<lambda>word. toUpperCase (trim word)) (splitLines (trim content))"

definition noFileFound :: "string \<Rightarrow> string \<Rightarrow> error" where
  "noFileFound cwd dirname =
     Error (''No local dictionary file found. Checked paths: '' @
            concat (map (\<lambda>p. p @ '', '') (butlast (possiblePaths cwd dirname))) @
            last (possiblePaths cwd dirname))"

record DictionaryService =
  words :: "string set option"
  isLoaded :: bool

text \<open>
  \<open>DictionaryService.loadDictionary\<close>: \<open>Inr\<close> the service after a normal return, \<open>Inl\<close>
  the error thrown (the \<open>catch\<close> replaces whatever was thrown by one fixed error).
\<close>

definition loadDictionary ::
  "fileSystem \<Rightarrow> string \<Rightarrow> string \<Rightarrow> DictionaryService \<Rightarrow> error + DictionaryService" where
  "loadDictionary fs cwd dirname svc =
     (if isLoaded svc \<and> words svc \<noteq> None then Inr svc
      else
        (case firstExisting fs (possiblePaths cwd dirname) of
           Some (Readable content) \<Rightarrow>
             Inr (svc\<lparr>words := Some (set (parseWords content)), isLoaded := True\<rparr>)
         | Some (Unreadable e) \<Rightarrow> Inl (Error ''Could not load dictionary from local files'')
         | None \<Rightarrow> Inl (Error ''Could not load dictionary from local files'')))"

definition CHUNK_SIZE :: nat where
  "CHUNK_SIZE = 1000"

text \<open>
  The chunked loop of \<open>buildGaddagFromDictionaryService\<close>. The \<open>Gaddag\<close> class is a
  parameter: \<open>addWord\<close> is its method, as a function on the structure. The pause between
  chunks (\<open>setImmediate\<close>) does not touch the structure.
\<close>

definition addChunk :: "(string \<Rightarrow> 'g \<Rightarrow> 'g) \<Rightarrow> string list \<Rightarrow> 'g \<Rightarrow> 'g" where
  "addChunk addWord chunk g = fold (\<lambda>word g'. if word \<noteq> [] \<and> length word > 0 then addWord word g' else g') chunk g"

function chunkLoop :: "(string \<Rightarrow> 'g \<Rightarrow> 'g) \<Rightarrow> string list \<Rightarrow> nat \<Rightarrow> 'g \<Rightarrow> 'g" where
  "chunkLoop addWord ws i g =
     (if i < length ws
      then chunkLoop addWord ws (i + CHUNK_SIZE) (addChunk addWord (take CHUNK_SIZE (drop i ws)) g)
      else g)"
  by pat_completeness auto
termination
  by (relation "measure (\<lambda>(addWord, ws, i, g). length ws - i)") (auto simp: CHUNK_SIZE_def)

declare chunkLoop.simps [simp del]

definition buildGaddagFromDictionaryService ::
  "fileSystem \<Rightarrow> string \<Rightarrow> string \<Rightarrow> 'g \<Rightarrow> (string \<Rightarrow> 'g \<Rightarrow> 'g) \<Rightarrow> error + 'g" where
  "buildGaddagFromDictionaryService fs cwd dirname newGaddag addWord =
     (case firstExisting fs (possiblePaths cwd dirname) of
        Some (Readable content) \<Rightarrow> Inr (chunkLoop addWord (parseWords content) 0 newGaddag)
      | Some (Unreadable e) \<Rightarrow> Inl e
      | None \<Rightarrow> Inl (noFileFound cwd dirname))"

text \<open>\<open>getDictionarySet\<close>\<close>

definition getDictionarySet :: "fileSystem \<Rightarrow> string \<Rightarrow> string \<Rightarrow> error + string set" where
  "getDictionarySet fs cwd dirname =
     (case firstExisting fs (possiblePaths cwd dirname) of
        Some (Readable content) \<Rightarrow> Inr (set (parseWords content))
      | Some (Unreadable e) \<Rightarrow> Inl e
      | None \<Rightarrow>
          Inl (Error (''No local dictionary file found for dictionary set. Checked paths: '' @
                 concat (map (\<lambda>p. p @ '', '') (butlast (possiblePaths cwd dirname))) @
                 last (possiblePaths cwd dirname))))"

text \<open>The calls of \<open>addWord\<close> in the order they are made: the build over a recording structure.\<close>

definition addWordCalls :: "fileSystem \<Rightarrow> string \<Rightarrow> string \<Rightarrow> error + string list" where
  "addWordCalls fs cwd dirname =
     buildGaddagFromDictionaryService fs cwd dirname [] (\<lambda>word calls. calls @ [word])"

section \<open>The GADDAG\<close>

text \<open>
  Modelled from the spec: the \<open>Gaddag\<close> class of \<open>gaddag/gaddag\<close> is not among the sources.
  A node maps a symbol (a letter or the direction-change delimiter) to a child and carries
  the flag that marks a complete path; \<open>addWord\<close> inserts the n+1 rotations of a word, one
  per split position, creating nodes as needed and marking the last node of each path.
\<close>

datatype symbol = Letter char | Delimiter

datatype GaddagNode = GaddagNode (isTerminal: bool) (transitions: "(symbol \<times> GaddagNode) list")

definition emptyGaddag :: GaddagNode where
  "emptyGaddag = GaddagNode False []"

definition followTransition :: "GaddagNode \<Rightarrow> symbol \<Rightarrow> GaddagNode option" where
  "followTransition fromNode letterCode = map_of (transitions fromNode) letterCode"

fun setTransition :: "symbol \<Rightarrow> GaddagNode \<Rightarrow> (symbol \<times> GaddagNode) list \<Rightarrow> (symbol \<times> GaddagNode) list" where
  "setTransition letterCode child [] = [(letterCode, child)]"
| "setTransition letterCode child ((k, n) # ts) =
     (if k = letterCode then (letterCode, child) # ts else (k, n) # setTransition letterCode child ts)"

fun insertPath :: "symbol list \<Rightarrow> GaddagNode \<Rightarrow> GaddagNode" where
  "insertPath [] (GaddagNode t ts) = GaddagNode True ts"
| "insertPath (letterCode # rest) (GaddagNode t ts) =
     GaddagNode t
       (setTransition letterCode
          (insertPath rest (case map_of ts letterCode of Some child \<Rightarrow> child | None \<Rightarrow> emptyGaddag)) ts)"

text \<open>The rotation of \<open>w\<close> at split \<open>i\<close>: the reversed prefix, the delimiter, the suffix.\<close>

definition rotation :: "string \<Rightarrow> nat \<Rightarrow> symbol list" where
  "rotation w i = map Letter (rev (take i w)) @ [Delimiter] @ map Letter (drop i w)"

definition addWord :: "string \<Rightarrow> GaddagNode \<Rightarrow> GaddagNode" where
  "addWord w g = fold (\<lambda>i g'. insertPath (rotation w i) g') [0..<Suc (length w)] g"

text \<open>Following a path from a node: the node reached, if every transition exists.\<close>

fun walk :: "GaddagNode \<Rightarrow> symbol list \<Rightarrow> GaddagNode option" where
  "walk n [] = Some n"
| "walk n (letterCode # rest) =
     (case followTransition n letterCode of Some child \<Rightarrow> walk child rest | None \<Rightarrow> None)"

definition pathComplete :: "GaddagNode \<Rightarrow> symbol list \<Rightarrow> bool" where
  "pathComplete g path = (case walk g path of Some n \<Rightarrow> isTerminal n | None \<Rightarrow> False)"

section \<open>The initialization of the service\<close>

text \<open>
  \<open>initialize\<close> is an \<open>async\<close> method: between its \<open>await\<close>s other calls run, and each
  stretch of code between two \<open>await\<close>s runs to completion. So the state changes by three
  kinds of events only: a call of \<open>initialize\<close>, a call of \<open>ensureInitialized\<close>, and the
  resumption of a suspended activation when the promise it awaits settles. The
  runtime state adds to the fields of the service the activations of \<open>initialize\<close> that
  have passed the guard, each suspended at one of the three \<open>await\<close>s, and two counters:
  the constructions started and the promises handed out by \<open>initialize\<close>.
\<close>

datatype stage = AwaitLoadDictionary | AwaitGaddagBuild | AwaitDictionarySet

record 'g Runtime = "'g Service" +
  running :: "stage list"
  buildsStarted :: nat
  promisesMade :: nat

definition initialRuntime :: "'g Runtime" where
  "initialRuntime =
     \<lparr>gaddag = None, dictionary = None, initPromise = None, isInitializing = False,
      running = [], buildsStarted = 0, promisesMade = 0\<rparr>"

text \<open>
  A call of \<open>initialize\<close> up to its first \<open>await\<close> (or its immediate \<open>return\<close>). The
  promise it returns is numbered by \<open>promisesMade\<close> before the call.
\<close>

definition initialize :: "'g Runtime \<Rightarrow> 'g Runtime" where
  "initialize rt =
     (if isInitializing rt \<or> (gaddag rt \<noteq> None \<and> dictionary rt \<noteq> None)
      then rt\<lparr>promisesMade := Suc (promisesMade rt)\<rparr>
      else rt\<lparr>isInitializing := True,
              running := running rt @ [AwaitLoadDictionary],
              buildsStarted := Suc (buildsStarted rt),
              promisesMade := Suc (promisesMade rt)\<rparr>)"

text \<open>\<open>ensureInitialized\<close>, up to its \<open>await\<close>: the promise awaited and the new state.\<close>

definition ensureInitialized :: "'g Runtime \<Rightarrow> nat \<times> 'g Runtime" where
  "ensureInitialized rt =
     (case initPromise rt of
        None \<Rightarrow> (promisesMade rt, (initialize rt)\<lparr>initPromise := Some (promisesMade rt)\<rparr>)
      | Some p \<Rightarrow> (p, rt))"

text \<open>The \<open>catch\<close> and \<open>finally\<close> blocks, and the normal end, of activation \<open>k\<close>.\<close>

definition endActivation :: "nat \<Rightarrow> 'g Runtime \<Rightarrow> 'g Runtime" where
  "endActivation k rt =
     rt\<lparr>isInitializing := False, running := take k (running rt) @ drop (Suc k) (running rt)\<rparr>"

text \<open>
  Activation \<open>k\<close> resumes when the promise it awaits settles: rejected (\<open>Inl\<close>), or
  fulfilled with the structure and the word set, of which each stage reads its part.
\<close>

definition resume :: "nat \<Rightarrow> error + 'g \<times> string set \<Rightarrow> 'g Runtime \<Rightarrow> 'g Runtime" where
  "resume k settled rt =
     (if k < length (running rt)
      then
        (case settled of
           Inl e \<Rightarrow> endActivation k rt
         | Inr (g, d) \<Rightarrow>
             (case running rt ! k of
                AwaitLoadDictionary \<Rightarrow> rt\<lparr>running := (running rt)[k := AwaitGaddagBuild]\<rparr>
              | AwaitGaddagBuild \<Rightarrow>
                  rt\<lparr>gaddag := Some g, running := (running rt)[k := AwaitDictionarySet]\<rparr>
              | AwaitDictionarySet \<Rightarrow> endActivation k (rt\<lparr>dictionary := Some d\<rparr>)))
      else rt)"

datatype 'g event = CallInitialize | CallEnsureInitialized | Resume nat "error + 'g \<times> string set"

fun step :: "'g event \<Rightarrow> 'g Runtime \<Rightarrow> 'g Runtime" where
  "step CallInitialize rt = initialize rt"
| "step CallEnsureInitialized rt = snd (ensureInitialized rt)"
| "step (Resume k settled) rt = resume k settled rt"

definition run :: "'g event list \<Rightarrow> 'g Runtime \<Rightarrow> 'g Runtime" where
  "run evs rt = fold step evs rt"

section \<open>The board layout and the score of a move\<close>

definition MULTIPLIER_LAYOUT :: "MultiplierType option list list" where
  "MULTIPLIER_LAYOUT =
     [[Some TRIPLE_WORD, None, None, Some DOUBLE_LETTER, None, None, None, Some TRIPLE_WORD, None, None, None, Some DOUBLE_LETTER, None, None, Some TRIPLE_WORD],
      [None, Some DOUBLE_WORD, None, None, None, Some TRIPLE_LETTER, None, None, None, Some TRIPLE_LETTER, None, None, None, Some DOUBLE_WORD, None],
      [None, None, Some DOUBLE_WORD, None, None, None, Some DOUBLE_LETTER, None, Some DOUBLE_LETTER, None, None, None, Some DOUBLE_WORD, None, None],
      [Some DOUBLE_LETTER, None, None, Some DOUBLE_WORD, None, None, None, Some DOUBLE_LETTER, None, None, None, Some DOUBLE_WORD, None, None, Some DOUBLE_LETTER],
      [None, None, None, None, Some DOUBLE_WORD, None, None, None, None, None, Some DOUBLE_WORD, None, None, None, None],
      [None, Some TRIPLE_LETTER, None, None, None, Some TRIPLE_LETTER, None, None, None, Some TRIPLE_LETTER, None, None, None, Some TRIPLE_LETTER, None],
      [None, None, Some DOUBLE_LETTER, None, None, None, Some DOUBLE_LETTER, None, Some DOUBLE_LETTER, None, None, None, Some DOUBLE_LETTER, None, None],
      [Some TRIPLE_WORD, None, None, Some DOUBLE_LETTER, None, None, None, Some CENTER, None, None, None, Some DOUBLE_LETTER, None, None, Some TRIPLE_WORD],
      [None, None, Some DOUBLE_LETTER, None, None, None, Some DOUBLE_LETTER, None, Some DOUBLE_LETTER, None, None, None, Some DOUBLE_LETTER, None, None],
      [None, Some TRIPLE_LETTER, None, None, None, Some TRIPLE_LETTER, None, None, None, Some TRIPLE_LETTER, None, None, None, Some TRIPLE_LETTER, None],
      [None, None, None, None, Some DOUBLE_WORD, None, None, None, None, None, Some DOUBLE_WORD, None, None, None, None],
      [Some DOUBLE_LETTER, None, None, Some DOUBLE_WORD, None, None, None, Some DOUBLE_LETTER, None, None, None, Some DOUBLE_WORD, None, None, Some DOUBLE_LETTER],
      [None, None, Some DOUBLE_WORD, None, None, None, Some DOUBLE_LETTER, None, Some DOUBLE_LETTER, None, None, None, Some DOUBLE_WORD, None, None],
      [None, Some DOUBLE_WORD, None, None, None, Some TRIPLE_LETTER, None, None, None, Some TRIPLE_LETTER, None, None, None, Some DOUBLE_WORD, None],
      [Some TRIPLE_WORD, None, None, Some DOUBLE_LETTER, None, None, None, Some TRIPLE_WORD, None, None, None, Some DOUBLE_LETTER, None, None, Some TRIPLE_WORD]]"

text \<open>\<open>createEmptyBoard\<close>, before the random evocations are put into the \<open>powerUp\<close> fields.\<close>

definition createEmptyBoard :: GameBoard where
  "createEmptyBoard = map (map (\<lambda>m. \<lparr>cell_tile = None, multiplier = m\<rparr>)) MULTIPLIER_LAYOUT"

text \<open>
  Modelled from the spec: \<open>scoreCalculator\<close> is not among the sources. A candidate move is
  a start cell, a direction and the tiles of the primary word in order; a cell of the word
  is new when the board holds no tile there. The score of a word is the sum of the letter
  values, each times the letter multiplier of its cell if the cell is new, times the product
  of the word multipliers of the new cells; the centre doubles the word. The total is the sum
  over the primary word and the perpendicular words through new cells, plus a fixed bonus
  when the move uses all rack tiles, read as a full rack of \<open>maxRackSize\<close> tiles (the
  default of \<open>getDefaultModifiers\<close>).
\<close>

record Candidate =
  cand_row :: nat
  cand_col :: nat
  cand_dir :: Direction
  cand_tiles :: "Tile list"

record ScoredCell =
  sc_letter :: string
  sc_value :: int
  sc_multiplier :: "MultiplierType option"
  sc_new :: bool

definition maxRackSize :: nat where
  "maxRackSize = 7"

definition letterMultiplier :: "MultiplierType option \<Rightarrow> int" where
  "letterMultiplier m = (case m of Some DOUBLE_LETTER \<Rightarrow> 2 | Some TRIPLE_LETTER \<Rightarrow> 3 | _ \<Rightarrow> 1)"

definition wordMultiplier :: "MultiplierType option \<Rightarrow> int" where
  "wordMultiplier m =
     (case m of Some DOUBLE_WORD \<Rightarrow> 2 | Some TRIPLE_WORD \<Rightarrow> 3 | Some CENTER \<Rightarrow> 2 | _ \<Rightarrow> 1)"

definition wordScore :: "ScoredCell list \<Rightarrow> int" where
  "wordScore cells =
     (\<Sum>c\<leftarrow>cells. sc_value c * (if sc_new c then letterMultiplier (sc_multiplier c) else 1)) *
     (\<Prod>c\<leftarrow>cells. if sc_new c then wordMultiplier (sc_multiplier c) else 1)"

definition tileOn :: "GameBoard \<Rightarrow> nat \<Rightarrow> nat \<Rightarrow> Tile option" where
  "tileOn gameBoard r c =
     (if r < length gameBoard \<and> c < length (gameBoard ! r) then cell_tile (gameBoard ! r ! c) else None)"

definition multiplierOn :: "GameBoard \<Rightarrow> nat \<Rightarrow> nat \<Rightarrow> MultiplierType option" where
  "multiplierOn gameBoard r c =
     (if r < length gameBoard \<and> c < length (gameBoard ! r) then multiplier (gameBoard ! r ! c) else None)"

definition shownLetter :: "Tile \<Rightarrow> string" where
  "shownLetter t = (case chosenLetter t of Some l \<Rightarrow> l | None \<Rightarrow> letter t)"

definition oldCell :: "GameBoard \<Rightarrow> nat \<Rightarrow> nat \<Rightarrow> Tile \<Rightarrow> ScoredCell" where
  "oldCell gameBoard r c t =
     \<lparr>sc_letter = shownLetter t, sc_value = tile_value t,
      sc_multiplier = multiplierOn gameBoard r c, sc_new = False\<rparr>"

definition newCell :: "GameBoard \<Rightarrow> nat \<Rightarrow> nat \<Rightarrow> Tile \<Rightarrow> ScoredCell" where
  "newCell gameBoard r c t =
     \<lparr>sc_letter = shownLetter t, sc_value = tile_value t,
      sc_multiplier = multiplierOn gameBoard r c, sc_new = True\<rparr>"

definition candRow :: "Candidate \<Rightarrow> nat \<Rightarrow> nat" where
  "candRow cand i = (if cand_dir cand = H then cand_row cand else cand_row cand + i)"

definition candCol :: "Candidate \<Rightarrow> nat \<Rightarrow> nat" where
  "candCol cand i = (if cand_dir cand = H then cand_col cand + i else cand_col cand)"

definition primaryCell :: "GameBoard \<Rightarrow> Candidate \<Rightarrow> nat \<Rightarrow> ScoredCell" where
  "primaryCell gameBoard cand i =
     (let r = candRow cand i; c = candCol cand i
      in case tileOn gameBoard r c of
           Some t \<Rightarrow> oldCell gameBoard r c t
         | None \<Rightarrow> newCell gameBoard r c (cand_tiles cand ! i))"

definition primaryWord :: "GameBoard \<Rightarrow> Candidate \<Rightarrow> ScoredCell list" where
  "primaryWord gameBoard cand = map (primaryCell gameBoard cand) [0..<length (cand_tiles cand)]"

text \<open>The tiles already on the board right before and right after a position of a line.\<close>

fun tilesBefore :: "(nat \<Rightarrow> ScoredCell option) \<Rightarrow> nat \<Rightarrow> ScoredCell list" where
  "tilesBefore line 0 = []"
| "tilesBefore line (Suc k) =
     (case line k of Some cell \<Rightarrow> tilesBefore line k @ [cell] | None \<Rightarrow> [])"

fun tilesAfter :: "(nat \<Rightarrow> ScoredCell option) \<Rightarrow> nat \<Rightarrow> nat \<Rightarrow> ScoredCell list" where
  "tilesAfter line k 0 = []"
| "tilesAfter line k (Suc n) =
     (case line (Suc k) of Some cell \<Rightarrow> cell # tilesAfter line (Suc k) n | None \<Rightarrow> [])"

definition crossLine :: "GameBoard \<Rightarrow> Candidate \<Rightarrow> nat \<Rightarrow> nat \<Rightarrow> ScoredCell option" where
  "crossLine gameBoard cand i k =
     (let r = (if cand_dir cand = H then k else candRow cand i);
          c = (if cand_dir cand = H then candCol cand i else k)
      in map_option (oldCell gameBoard r c) (tileOn gameBoard r c))"

definition perpendicularWord :: "GameBoard \<Rightarrow> Candidate \<Rightarrow> nat \<Rightarrow> ScoredCell list" where
  "perpendicularWord gameBoard cand i =
     (let k = (if cand_dir cand = H then candRow cand i else candCol cand i)
      in tilesBefore (crossLine gameBoard cand i) k @ [primaryCell gameBoard cand i] @
         tilesAfter (crossLine gameBoard cand i) k BOARD_SIZE)"

definition wordsFormed :: "GameBoard \<Rightarrow> Candidate \<Rightarrow> ScoredCell list list" where
  "wordsFormed gameBoard cand =
     primaryWord gameBoard cand #
     filter (\<lambda>cells. length cells > 1)
       (map (perpendicularWord gameBoard cand)
          (filter (\<lambda>i. sc_new (primaryCell gameBoard cand i)) [0..<length (cand_tiles cand)]))"

definition tilesPlaced :: "GameBoard \<Rightarrow> Candidate \<Rightarrow> nat" where
  "tilesPlaced gameBoard cand = length (filter sc_new (primaryWord gameBoard cand))"

definition totalScore :: "int \<Rightarrow> GameBoard \<Rightarrow> Candidate \<Rightarrow> int" where
  "totalScore bonus gameBoard cand =
     (\<Sum>cells\<leftarrow>wordsFormed gameBoard cand. wordScore cells) +
     (if tilesPlaced gameBoard cand = maxRackSize then bonus else 0)"

definition scoredWords :: "GameBoard \<Rightarrow> Candidate \<Rightarrow> (string \<times> int) list" where
  "scoredWords gameBoard cand =
     map (\<lambda>cells. (concat (map sc_letter cells), wordScore cells)) (wordsFormed gameBoard cand)"

section \<open>Invariants used in the proofs\<close>

text \<open>The lines of a text that are left after \<open>trim\<close>.\<close>

definition nonEmptyTrimmed :: "string list \<Rightarrow> string list" where
  "nonEmptyTrimmed ls = filter (\<lambda>w. w \<noteq> []) (map trim ls)"

text \<open>At most one activation of \<open>initialize\<close> is suspended, and the flag says whether one is.\<close>

definition singleFlight :: "'g Runtime \<Rightarrow> bool" where
  "singleFlight rt = (length (running rt) \<le> 1 \<and> (isInitializing rt \<longleftrightarrow> running rt \<noteq> []))"

definition ready :: "'g Runtime \<Rightarrow> bool" where
  "ready rt = (gaddag rt \<noteq> None \<and> dictionary rt \<noteq> None)"

text \<open>No construction before \<open>initPromise\<close> is set, and never more than one.\<close>

definition onceOnly :: "'g Runtime \<Rightarrow> bool" where
  "onceOnly rt = (buildsStarted rt \<le> 1 \<and> (initPromise rt = None \<longrightarrow> buildsStarted rt = 0))"

section \<open>Scenarios\<close>

text \<open>Concrete inputs on which the theorems below are instantiated.\<close>

definition plainTile :: "string \<Rightarrow> string \<Rightarrow> int \<Rightarrow> Tile" where
  "plainTile i l v = \<lparr>tile_id = i, letter = l, tile_value = v, isBlank = False, chosenLetter = None\<rparr>"

definition putTile :: "GameBoard \<Rightarrow> nat \<Rightarrow> nat \<Rightarrow> Tile \<Rightarrow> GameBoard" where
  "putTile gameBoard r c t = gameBoard[r := (gameBoard ! r)[c := (gameBoard ! r ! c)\<lparr>cell_tile := Some t\<rparr>]]"

definition catsTiles :: "Tile list" where
  "catsTiles = [plainTile ''t1'' ''C'' 3, plainTile ''t2'' ''A'' 1, plainTile ''t3'' ''T'' 1, plainTile ''t4'' ''S'' 1]"

text \<open>The board after CAT has been played across from the centre.\<close>

definition boardWithCat :: GameBoard where
  "boardWithCat =
     putTile (putTile (putTile createEmptyBoard 7 7 (plainTile ''t1'' ''C'' 3))
                7 8 (plainTile ''t2'' ''A'' 1))
       7 9 (plainTile ''t3'' ''T'' 1)"


definition moveAt :: "string \<Rightarrow> nat \<Rightarrow> nat \<Rightarrow> Direction \<Rightarrow> Move" where
  "moveAt w r c d = \<lparr>word = w, move_row = r, move_col = c, dir = d, score = 0\<rparr>"

definition scenarioPlayer :: Player where
  "scenarioPlayer =
     \<lparr>player_id = ''ai-1'', player_name = ''Baal'',
      tiles = [plainTile ''t1'' ''C'' 3, plainTile ''t2'' ''A'' 1, plainTile ''t3'' ''T'' 1]\<rparr>"

definition scenarioGame :: GameState where
  "scenarioGame = \<lparr>board = createEmptyBoard, players = [scenarioPlayer]\<rparr>"

definition scenarioService :: "unit Service" where
  "scenarioService =
     \<lparr>gaddag = Some (), dictionary = Some {''CAT'', ''AT''}, initPromise = Some 0, isInitializing = False\<rparr>"

text \<open>
  Collaborators that never throw, with a validator that accepts every non-empty placement;
  the outcomes of the initialization and of the generation are the two arguments.
\<close>

definition scenarioEnv :: "(error + unit) option \<Rightarrow> (error + Move list) option \<Rightarrow> (unit, unit) Collaborators" where
  "scenarioEnv initialized generated =
     \<lparr>initSettled = initialized,
      newBoard = (\<lambda>d. Inr ()),
      placeWords = (\<lambda>emptyBoard found gameBoard. Inr emptyBoard),
      generateMoves = (\<lambda>gaddagBoard rack g. generated),
      validateMove = (\<lambda>placedTiles gameBoard. Inr \<lparr>isValid = (placedTiles \<noteq> []), errors = []\<rparr>),
      random3 = 0\<rparr>"

text \<open>A file system with the word list at the first of the three paths, and one with no file.\<close>

definition wordFile :: "string \<Rightarrow> fileSystem" where
  "wordFile content = (\<lambda>p. if p = ''/app/public/sowpods.txt'' then Some (Readable content) else None)"

definition noFiles :: fileSystem where
  "noFiles = (\<lambda>p. None)"

definition freshDictionaryService :: DictionaryService where
  "freshDictionaryService = \<lparr>words = None, isLoaded = False\<rparr>"


text \<open>
  A service and collaborators over numbered boards and GADDAGs: the empty board is 0, the
  board with the tiles of the game on it is 1, the GADDAG of the service is 7. The generator
  answers \<open>generated\<close> on board 1 with GADDAG 7 and the single candidate CAT everywhere
  else; the validator refuses the empty placement only.
\<close>

definition pickyService :: "nat Service" where
  "pickyService =
     \<lparr>gaddag = Some 7, dictionary = Some {''CAT'', ''AT''}, initPromise = Some 0, isInitializing = False\<rparr>"

definition pickyEnv :: "(error + Move list) option \<Rightarrow> (nat, nat) Collaborators" where
  "pickyEnv generated =
     \<lparr>initSettled = Some (Inr ()),
      newBoard = (\<lambda>d. Inr 0),
      placeWords = (\<lambda>emptyBoard found gameBoard. Inr (Suc emptyBoard)),
      generateMoves = (\<lambda>gaddagBoard rack g.
         if gaddagBoard = 1 \<and> g = 7 then generated else Some (Inr [moveAt ''CAT'' 7 7 H])),
      validateMove = (\<lambda>placedTiles gameBoard. Inr \<lparr>isValid = (placedTiles \<noteq> []), errors = []\<rparr>),
      random3 = 1\<rparr>"

text \<open>Collaborators whose validator accepts every placement, the empty one too.\<close>

definition acceptAllEnv :: "(error + Move list) option \<Rightarrow> (unit, unit) Collaborators" where
  "acceptAllEnv generated =
     \<lparr>initSettled = Some (Inr ()),
      newBoard = (\<lambda>d. Inr ()),
      placeWords = (\<lambda>emptyBoard found gameBoard. Inr emptyBoard),
      generateMoves = (\<lambda>gaddagBoard rack g. generated),
      validateMove = (\<lambda>placedTiles gameBoard. Inr \<lparr>isValid = True, errors = []\<rparr>),
      random3 = 0\<rparr>"

section \<open>Properties of \<open>convertGaddagMoveToPlacedTiles\<close>\<close>


















section \<open>Properties of \<open>generateMove\<close>\<close>

lemma tryMoves_none:
  "\<forall>m\<in>set ms. \<not> passesValidation env playerTiles gameBoard m \<Longrightarrow>
   tryMoves env playerTiles gameBoard ms = None"
  by (induction ms) (auto simp: passesValidation_def Let_def split: sum.splits)

lemma tryMoves_first:
  "j < length ms \<Longrightarrow> passesValidation env playerTiles gameBoard (ms ! j) \<Longrightarrow>
   \<forall>k<j. \<not> passesValidation env playerTiles gameBoard (ms ! k) \<Longrightarrow>
   tryMoves env playerTiles gameBoard ms =
     Some \<lparr>move_type = WORD,
           move_tiles = Some (convertGaddagMoveToPlacedTiles (ms ! j) playerTiles gameBoard),
           exchangeTileIds = None\<rparr>"
proof (induction ms arbitrary: j)
  case Nil
  then show ?case by simp
next
  case (Cons m ms)
  show ?case
  proof (cases j)
    case 0
    with Cons.prems show ?thesis
      by (auto simp: passesValidation_def Let_def split: sum.splits)
  next
    case (Suc j')
    with Cons.prems have "\<not> passesValidation env playerTiles gameBoard m" by auto
    then have skip: "tryMoves env playerTiles gameBoard (m # ms) = tryMoves env playerTiles gameBoard ms"
      by (auto simp: passesValidation_def Let_def split: sum.splits)
    from Cons.prems Suc have "j' < length ms" "passesValidation env playerTiles gameBoard (ms ! j')"
      "\<forall>k<j'. \<not> passesValidation env playerTiles gameBoard (ms ! k)" by auto
    from Cons.IH[OF this] skip Suc show ?thesis by simp
  qed
qed

lemma exchange_type: "move_type (generateStrategicExchange rnd ts) = EXCHANGE"
  by (simp add: generateStrategicExchange_def Let_def)


lemma tryMoves_Some:
  "tryMoves env playerTiles gameBoard ms = Some aiMove \<Longrightarrow>
   \<exists>j<length ms. passesValidation env playerTiles gameBoard (ms ! j) \<and>
      (\<forall>k<j. \<not> passesValidation env playerTiles gameBoard (ms ! k)) \<and>
      aiMove = \<lparr>move_type = WORD,
                move_tiles = Some (convertGaddagMoveToPlacedTiles (ms ! j) playerTiles gameBoard),
                exchangeTileIds = None\<rparr>"
proof (induction ms)
  case Nil
  then show ?case by simp
next
  case (Cons m ms)
  show ?case
  proof (cases "passesValidation env playerTiles gameBoard m")
    case True
    with Cons.prems have "aiMove = \<lparr>move_type = WORD,
                move_tiles = Some (convertGaddagMoveToPlacedTiles m playerTiles gameBoard),
                exchangeTileIds = None\<rparr>"
      by (auto simp: passesValidation_def Let_def split: sum.splits)
    with True show ?thesis by (intro exI[of _ 0]) simp
  next
    case False
    then have "tryMoves env playerTiles gameBoard (m # ms) = tryMoves env playerTiles gameBoard ms"
      by (auto simp: passesValidation_def Let_def split: sum.splits)
    with Cons obtain j where j: "j < length ms" "passesValidation env playerTiles gameBoard (ms ! j)"
      "\<forall>k<j. \<not> passesValidation env playerTiles gameBoard (ms ! k)"
      "aiMove = \<lparr>move_type = WORD,
                move_tiles = Some (convertGaddagMoveToPlacedTiles (ms ! j) playerTiles gameBoard),
                exchangeTileIds = None\<rparr>" by auto
    have "\<forall>k<Suc j. \<not> passesValidation env playerTiles gameBoard ((m # ms) ! k)"
    proof (intro allI impI)
      fix k assume "k < Suc j"
      with False j(3) show "\<not> passesValidation env playerTiles gameBoard ((m # ms) ! k)"
        by (cases k) auto
    qed
    with j show ?thesis by (intro exI[of _ "Suc j"]) simp
  qed
qed

lemma searchMove_cases:
  "(\<exists>e. searchMove env svc g gameState player = Inl e) \<or>
   searchMove env svc g gameState player = Inr (generateStrategicExchange (random3 env) (tiles player)) \<or>
   (\<exists>gaddagBoard moves j.
      convertToGaddagBoard env svc (board gameState) = Inr gaddagBoard \<and>
      generateMoves env gaddagBoard (convertTilesToRack (tiles player)) g = Some (Inr moves) \<and>
      j < min 15 (length moves) \<and>
      passesValidation env (tiles player) (board gameState) (moves ! j) \<and>
      searchMove env svc g gameState player =
        Inr \<lparr>move_type = WORD,
             move_tiles = Some (convertGaddagMoveToPlacedTiles (moves ! j) (tiles player) (board gameState)),
             exchangeTileIds = None\<rparr>)"
proof (cases "convertToGaddagBoard env svc (board gameState)")
  case (Inl e)
  then show ?thesis by (simp add: searchMove_def)
next
  case (Inr gaddagBoard)
  note gb = this
  show ?thesis
  proof (cases "generateMoves env gaddagBoard (convertTilesToRack (tiles player)) g")
    case None
    with gb show ?thesis by (simp add: searchMove_def raceWithTimeout_def)
  next
    case (Some r)
    show ?thesis
    proof (cases r)
      case (Inl e)
      with gb Some show ?thesis by (simp add: searchMove_def raceWithTimeout_def)
    next
      case (Inr moves)
      note mv = this
      show ?thesis
      proof (cases "tryMoves env (tiles player) (board gameState) (take 15 moves)")
        case None
        with gb Some mv show ?thesis by (simp add: searchMove_def raceWithTimeout_def)
      next
        case (Some aiMove)
        from tryMoves_Some[OF this] obtain j where j: "j < length (take 15 moves)"
          "passesValidation env (tiles player) (board gameState) (take 15 moves ! j)"
          "aiMove = \<lparr>move_type = WORD,
                move_tiles = Some (convertGaddagMoveToPlacedTiles (take 15 moves ! j) (tiles player) (board gameState)),
                exchangeTileIds = None\<rparr>" by blast
        then have ne: "moves \<noteq> []" by auto
        from j have j': "j < min 15 (length moves)" "take 15 moves ! j = moves ! j" by auto
        have "searchMove env svc g gameState player = Inr aiMove"
          using gb \<open>generateMoves env gaddagBoard (convertTilesToRack (tiles player)) g = Some r\<close> mv Some ne
          by (simp add: searchMove_def raceWithTimeout_def)
        with j j' gb \<open>generateMoves env gaddagBoard (convertTilesToRack (tiles player)) g = Some r\<close> mv
        show ?thesis by auto
      qed
    qed
  qed
qed

lemma generateMove_cases:
  assumes "find (\<lambda>p. player_id p = playerId) (players gameState) = Some player"
  shows "generateMove env svc gameState playerId =
           Inr (generateStrategicExchange (random3 env) (tiles player)) \<or>
         (\<exists>g gaddagBoard moves j.
            initSettled env = Some (Inr ()) \<and> gaddag svc = Some g \<and> dictionary svc \<noteq> None \<and>
            convertToGaddagBoard env svc (board gameState) = Inr gaddagBoard \<and>
            generateMoves env gaddagBoard (convertTilesToRack (tiles player)) g = Some (Inr moves) \<and>
            j < min 15 (length moves) \<and>
            passesValidation env (tiles player) (board gameState) (moves ! j) \<and>
            generateMove env svc gameState playerId =
              Inr \<lparr>move_type = WORD,
                   move_tiles = Some (convertGaddagMoveToPlacedTiles (moves ! j) (tiles player) (board gameState)),
                   exchangeTileIds = None\<rparr>)"
proof (cases "raceWithTimeout (initSettled env) ''AI initialization timeout''")
  case (Inl e)
  with assms show ?thesis by (simp add: generateMove_def)
next
  case (Inr u)
  then have init: "initSettled env = Some (Inr ())"
    by (auto simp: raceWithTimeout_def split: option.splits)
  show ?thesis
  proof (cases "gaddag svc")
    case None
    with assms Inr show ?thesis by (simp add: generateMove_def)
  next
    case (Some g)
    show ?thesis
    proof (cases "dictionary svc = None")
      case True
      with assms Inr Some show ?thesis by (simp add: generateMove_def)
    next
      case False
      have gm: "generateMove env svc gameState playerId =
        (case searchMove env svc g gameState player of
                         Inr aiMove \<Rightarrow> Inr aiMove
                       | Inl e \<Rightarrow> Inr (generateStrategicExchange (random3 env) (tiles player)))"
        using assms Inr Some False by (auto simp: generateMove_def)
      from searchMove_cases[of env svc g gameState player] show ?thesis
      proof (elim disjE exE conjE)
        fix e assume "searchMove env svc g gameState player = Inl e"
        with gm show ?thesis by simp
      next
        assume "searchMove env svc g gameState player = Inr (generateStrategicExchange (random3 env) (tiles player))"
        with gm show ?thesis by simp
      next
        fix gaddagBoard moves j
        assume "convertToGaddagBoard env svc (board gameState) = Inr gaddagBoard"
          "generateMoves env gaddagBoard (convertTilesToRack (tiles player)) g = Some (Inr moves)"
          "j < min 15 (length moves)"
          "passesValidation env (tiles player) (board gameState) (moves ! j)"
          "searchMove env svc g gameState player =
        Inr \<lparr>move_type = WORD,
             move_tiles = Some (convertGaddagMoveToPlacedTiles (moves ! j) (tiles player) (board gameState)),
             exchangeTileIds = None\<rparr>"
        with gm init Some False show ?thesis by auto
      qed
    qed
  qed
qed

lemma scenario_found:
  "find (\<lambda>p. player_id p = ''ai-1'') (players scenarioGame) = Some scenarioPlayer"
  by (simp add: scenarioGame_def scenarioPlayer_def)

lemma scenario_exchange:
  "generateStrategicExchange 0 (tiles scenarioPlayer) =
     \<lparr>move_type = EXCHANGE, move_tiles = None, exchangeTileIds = Some [''t3'', ''t1'', ''t2'']\<rparr>"
  by code_simp

lemma scenario_board:
  "convertToGaddagBoard (scenarioEnv i m) scenarioService (board scenarioGame) = Inr ()"
proof -
  have "gridComplete createEmptyBoard" by code_simp
  then show ?thesis
    by (simp add: convertToGaddagBoard_def existingTiles_def scenarioService_def scenarioGame_def
        scenarioEnv_def)
qed


lemma generateMove_at_call:
  assumes "find (\<lambda>p. player_id p = playerId) (players gameState) = Some player"
    and "gaddag svc = Some g"
    and "convertToGaddagBoard env svc (board gameState) = Inr gaddagBoard"
  shows "generateMove env svc gameState playerId =
     (case initSettled env of
        Some (Inr u) \<Rightarrow>
          (case generateMoves env gaddagBoard (convertTilesToRack (tiles player)) g of
             Some (Inr moves) \<Rightarrow>
               (case tryMoves env (tiles player) (board gameState) (take 15 moves) of
                  Some aiMove \<Rightarrow> Inr aiMove
                | None \<Rightarrow> Inr (generateStrategicExchange (random3 env) (tiles player)))
           | Some (Inl e) \<Rightarrow> Inr (generateStrategicExchange (random3 env) (tiles player))
           | None \<Rightarrow> Inr (generateStrategicExchange (random3 env) (tiles player)))
      | Some (Inl e) \<Rightarrow> Inr (generateStrategicExchange (random3 env) (tiles player))
      | None \<Rightarrow> Inr (generateStrategicExchange (random3 env) (tiles player)))"
proof -
  from assms(3) have dict: "dictionary svc \<noteq> None"
    by (auto simp: convertToGaddagBoard_def split: option.splits)
  show ?thesis
  proof (cases "initSettled env")
    case None
    with assms(1) show ?thesis by (simp add: generateMove_def raceWithTimeout_def)
  next
    case (Some r)
    show ?thesis
    proof (cases r)
      case (Inl e)
      with Some assms(1) show ?thesis by (simp add: generateMove_def raceWithTimeout_def)
    next
      case (Inr u)
      note init = Some Inr
      show ?thesis
      proof (cases "generateMoves env gaddagBoard (convertTilesToRack (tiles player)) g")
        case None
        with init assms dict show ?thesis
          by (auto simp: generateMove_def searchMove_def raceWithTimeout_def)
      next
        case (Some r')
        show ?thesis
        proof (cases r')
          case (Inl e)
          with Some init assms dict show ?thesis
            by (auto simp: generateMove_def searchMove_def raceWithTimeout_def)
        next
          case (Inr moves)
          have "tryMoves env (tiles player) (board gameState) (take 15 []) = None" by simp
          with Inr Some init assms dict show ?thesis
            by (cases "moves = []")
               (auto simp: generateMove_def searchMove_def raceWithTimeout_def split: option.splits)
        qed
      qed
    qed
  qed
qed

lemma picky_board:
  "convertToGaddagBoard (pickyEnv m) pickyService (board scenarioGame) = Inr 1"
proof -
  have "gridComplete createEmptyBoard" by code_simp
  then show ?thesis
    by (simp add: convertToGaddagBoard_def existingTiles_def pickyService_def scenarioGame_def
        pickyEnv_def)
qed

lemma picky_exchange:
  "generateStrategicExchange (Suc 0) (tiles scenarioPlayer) =
     \<lparr>move_type = EXCHANGE, move_tiles = None, exchangeTileIds = Some [''t3'', ''t1'', ''t2'']\<rparr>"
  by code_simp

lemma scenario_passes:
  "\<not> passesValidation (scenarioEnv i m) (tiles scenarioPlayer) (board scenarioGame) (moveAt ''QI'' 7 7 H)"
  "passesValidation (scenarioEnv i m) (tiles scenarioPlayer) (board scenarioGame) (moveAt ''CAT'' 7 7 H)"
proof -
  have c0: "convertGaddagMoveToPlacedTiles (moveAt ''QI'' 7 7 H) (tiles scenarioPlayer) (board scenarioGame) = []"
    by code_simp
  have c1: "convertGaddagMoveToPlacedTiles (moveAt ''CAT'' 7 7 H) (tiles scenarioPlayer) (board scenarioGame) \<noteq> []"
    by code_simp
  show "\<not> passesValidation (scenarioEnv i m) (tiles scenarioPlayer) (board scenarioGame) (moveAt ''QI'' 7 7 H)"
    by (simp add: passesValidation_def c0 scenarioEnv_def)
  show "passesValidation (scenarioEnv i m) (tiles scenarioPlayer) (board scenarioGame) (moveAt ''CAT'' 7 7 H)"
    by (simp add: passesValidation_def c1 scenarioEnv_def)
qed



text \<open>
  Claim C3. When the player is known, the initialization has succeeded, the board has been
  converted and the generator has returned its candidates, \<open>generateMove\<close> looks at the
  first 15 candidates only, in the generator's order: it returns as a WORD move the placed
  tiles of the first of them that passes validation, and when none of them passes it
  returns the strategic exchange, a move of type EXCHANGE with no tiles to place.
\<close>

theorem generateMove_plays_first_valid_of_top_15:
  assumes "find (\<lambda>p. player_id p = playerId) (players gameState) = Some player"
    and "initSettled env = Some (Inr ())"
    and "gaddag svc = Some g"
    and "convertToGaddagBoard env svc (board gameState) = Inr gaddagBoard"
    and "generateMoves env gaddagBoard (convertTilesToRack (tiles player)) g = Some (Inr moves)"
  shows "(\<forall>j. j < min 15 (length moves) \<and>
              passesValidation env (tiles player) (board gameState) (moves ! j) \<and>
              (\<forall>k<j. \<not> passesValidation env (tiles player) (board gameState) (moves ! k)) \<longrightarrow>
              generateMove env svc gameState playerId =
                Inr \<lparr>move_type = WORD,
                     move_tiles = Some (convertGaddagMoveToPlacedTiles (moves ! j) (tiles player) (board gameState)),
                     exchangeTileIds = None\<rparr>) \<and>
         ((\<forall>j<min 15 (length moves).
              \<not> passesValidation env (tiles player) (board gameState) (moves ! j)) \<longrightarrow>
              (\<exists>aiMove. generateMove env svc gameState playerId = Inr aiMove \<and>
                 move_type aiMove = EXCHANGE \<and> move_tiles aiMove = None \<and>
                 aiMove = generateStrategicExchange (random3 env) (tiles player)))"
proof -
  have gm: "generateMove env svc gameState playerId =
      (case tryMoves env (tiles player) (board gameState) (take 15 moves) of
         Some aiMove \<Rightarrow> Inr aiMove
       | None \<Rightarrow> Inr (generateStrategicExchange (random3 env) (tiles player)))"
    using generateMove_at_call[OF assms(1,3,4)] assms(2,5) by simp
  show ?thesis
  proof (intro conjI allI impI)
    fix j
    assume a: "j < min 15 (length moves) \<and>
              passesValidation env (tiles player) (board gameState) (moves ! j) \<and>
              (\<forall>k<j. \<not> passesValidation env (tiles player) (board gameState) (moves ! k))"
    then have "j < length (take 15 moves)" "passesValidation env (tiles player) (board gameState) (take 15 moves ! j)"
      "\<forall>k<j. \<not> passesValidation env (tiles player) (board gameState) (take 15 moves ! k)"
      by auto
    from tryMoves_first[OF this] a show "generateMove env svc gameState playerId =
                Inr \<lparr>move_type = WORD,
                     move_tiles = Some (convertGaddagMoveToPlacedTiles (moves ! j) (tiles player) (board gameState)),
                     exchangeTileIds = None\<rparr>"
      by (simp add: gm)
  next
    assume "\<forall>j<min 15 (length moves).
              \<not> passesValidation env (tiles player) (board gameState) (moves ! j)"
    then have "\<forall>m\<in>set (take 15 moves). \<not> passesValidation env (tiles player) (board gameState) m"
      by (auto simp: in_set_conv_nth)
    from tryMoves_none[OF this] have "generateMove env svc gameState playerId =
                Inr (generateStrategicExchange (random3 env) (tiles player))"
      by (simp add: gm)
    moreover have "move_tiles (generateStrategicExchange (random3 env) (tiles player)) = None"
      by (simp add: generateStrategicExchange_def Let_def)
    ultimately show "\<exists>aiMove. generateMove env svc gameState playerId = Inr aiMove \<and>
                 move_type aiMove = EXCHANGE \<and> move_tiles aiMove = None \<and>
                 aiMove = generateStrategicExchange (random3 env) (tiles player)"
      by (simp add: exchange_type)
  qed
qed

theorem generateMove_plays_first_valid_of_top_15_witness:
  "\<not> passesValidation (scenarioEnv (Some (Inr ())) None)
        (tiles scenarioPlayer) (board scenarioGame) (moveAt ''QI'' 7 7 H) \<and>
   passesValidation (scenarioEnv (Some (Inr ())) None)
        (tiles scenarioPlayer) (board scenarioGame) (moveAt ''CAT'' 7 7 H) \<and>
   generateMove (scenarioEnv (Some (Inr ())) (Some (Inr [moveAt ''QI'' 7 7 H, moveAt ''CAT'' 7 7 H])))
      scenarioService scenarioGame ''ai-1'' =
     Inr \<lparr>move_type = WORD,
          move_tiles = Some [\<lparr>placed_tile = plainTile ''t1'' ''C'' 3, placed_row = 7, placed_col = 7\<rparr>,
                             \<lparr>placed_tile = plainTile ''t2'' ''A'' 1, placed_row = 7, placed_col = 8\<rparr>,
                             \<lparr>placed_tile = plainTile ''t3'' ''T'' 1, placed_row = 7, placed_col = 9\<rparr>],
          exchangeTileIds = None\<rparr> \<and>
   length (replicate 15 (moveAt ''QI'' 7 7 H) @ [moveAt ''CAT'' 7 7 H]) = 16 \<and>
   generateMove (scenarioEnv (Some (Inr ()))
        (Some (Inr (replicate 15 (moveAt ''QI'' 7 7 H) @ [moveAt ''CAT'' 7 7 H]))))
      scenarioService scenarioGame ''ai-1'' =
     Inr \<lparr>move_type = EXCHANGE, move_tiles = None, exchangeTileIds = Some [''t3'', ''t1'', ''t2'']\<rparr>"
proof -
  let ?moves = "[moveAt ''QI'' 7 7 H, moveAt ''CAT'' 7 7 H]"
  let ?env = "scenarioEnv (Some (Inr ())) (Some (Inr ?moves))"
  let ?late = "replicate 15 (moveAt ''QI'' 7 7 H) @ [moveAt ''CAT'' 7 7 H]"
  let ?env' = "scenarioEnv (Some (Inr ())) (Some (Inr ?late))"
  have c1: "convertGaddagMoveToPlacedTiles (moveAt ''CAT'' 7 7 H) (tiles scenarioPlayer) (board scenarioGame) =
      [\<lparr>placed_tile = plainTile ''t1'' ''C'' 3, placed_row = 7, placed_col = 7\<rparr>,
       \<lparr>placed_tile = plainTile ''t2'' ''A'' 1, placed_row = 7, placed_col = 8\<rparr>,
       \<lparr>placed_tile = plainTile ''t3'' ''T'' 1, placed_row = 7, placed_col = 9\<rparr>]"
    by code_simp
  have h: "initSettled ?env = Some (Inr ())" "gaddag scenarioService = Some ()"
    "generateMoves ?env () (convertTilesToRack (tiles scenarioPlayer)) () = Some (Inr ?moves)"
    by (simp_all add: scenarioEnv_def scenarioService_def)
  have j: "(1::nat) < min 15 (length ?moves) \<and>
       passesValidation ?env (tiles scenarioPlayer) (board scenarioGame) (?moves ! 1) \<and>
       (\<forall>k<1. \<not> passesValidation ?env (tiles scenarioPlayer) (board scenarioGame) (?moves ! k))"
    using scenario_passes by simp
  from generateMove_plays_first_valid_of_top_15[OF scenario_found h(1,2) scenario_board h(3)] j
  have first: "generateMove ?env scenarioService scenarioGame ''ai-1'' =
     Inr \<lparr>move_type = WORD,
          move_tiles = Some (convertGaddagMoveToPlacedTiles (?moves ! 1) (tiles scenarioPlayer) (board scenarioGame)),
          exchangeTileIds = None\<rparr>" by blast
  have h': "initSettled ?env' = Some (Inr ())"
    "generateMoves ?env' () (convertTilesToRack (tiles scenarioPlayer)) () = Some (Inr ?late)"
    "random3 ?env' = 0"
    by (simp_all add: scenarioEnv_def)
  have none: "\<forall>j<min 15 (length ?late).
       \<not> passesValidation ?env' (tiles scenarioPlayer) (board scenarioGame) (?late ! j)"
  proof (intro allI impI)
    fix j assume "j < min 15 (length ?late)"
    then have "j < 15" by simp
    then have "?late ! j = moveAt ''QI'' 7 7 H" by (simp add: nth_append)
    then show "\<not> passesValidation ?env' (tiles scenarioPlayer) (board scenarioGame) (?late ! j)"
      using scenario_passes(1) by simp
  qed
  from generateMove_plays_first_valid_of_top_15[OF scenario_found h'(1) h(2) scenario_board h'(2)] none
  have "generateMove ?env' scenarioService scenarioGame ''ai-1'' =
      Inr (generateStrategicExchange (random3 ?env') (tiles scenarioPlayer))" by blast
  then have late: "generateMove ?env' scenarioService scenarioGame ''ai-1'' =
     Inr \<lparr>move_type = EXCHANGE, move_tiles = None, exchangeTileIds = Some [''t3'', ''t1'', ''t2'']\<rparr>"
    by (simp add: h'(3) scenario_exchange)
  from first late c1 scenario_passes show ?thesis by simp
qed


text \<open>
  Claim C4. For a known player, when the generation called on the converted board with the
  rack of the player and the GADDAG of the service times out or ends with no candidate,
  \<open>generateMove\<close> resolves to the strategic exchange, a move of type EXCHANGE; nothing is
  raised.
\<close>

theorem timeout_or_no_candidates_gives_exchange:
  assumes "find (\<lambda>p. player_id p = playerId) (players gameState) = Some player"
    and "gaddag svc = Some g"
    and "convertToGaddagBoard env svc (board gameState) = Inr gaddagBoard"
    and "generateMoves env gaddagBoard (convertTilesToRack (tiles player)) g = None \<or>
         generateMoves env gaddagBoard (convertTilesToRack (tiles player)) g = Some (Inr [])"
  shows "generateMove env svc gameState playerId =
           Inr (generateStrategicExchange (random3 env) (tiles player)) \<and>
         move_type (generateStrategicExchange (random3 env) (tiles player)) = EXCHANGE"
  using generateMove_at_call[OF assms(1,2,3)] assms(4)
  by (auto simp: exchange_type split: option.splits sum.splits)

theorem timeout_or_no_candidates_gives_exchange_witness:
  "convertToGaddagBoard (pickyEnv None) pickyService (board scenarioGame) = Inr 1 \<and>
   generateMoves (pickyEnv None) 1 (convertTilesToRack (tiles scenarioPlayer)) 7 = None \<and>
   generateMoves (pickyEnv None) 0 (convertTilesToRack (tiles scenarioPlayer)) 7 =
     Some (Inr [moveAt ''CAT'' 7 7 H]) \<and>
   generateMove (pickyEnv None) pickyService scenarioGame ''ai-1'' =
     Inr \<lparr>move_type = EXCHANGE, move_tiles = None, exchangeTileIds = Some [''t3'', ''t1'', ''t2'']\<rparr> \<and>
   generateMoves (pickyEnv (Some (Inr []))) 1 (convertTilesToRack (tiles scenarioPlayer)) 7 = Some (Inr []) \<and>
   generateMove (pickyEnv (Some (Inr []))) pickyService scenarioGame ''ai-1'' =
     Inr \<lparr>move_type = EXCHANGE, move_tiles = None, exchangeTileIds = Some [''t3'', ''t1'', ''t2'']\<rparr>"
proof -
  have g: "gaddag pickyService = Some 7" by (simp add: pickyService_def)
  have t: "generateMoves (pickyEnv None) 1 (convertTilesToRack (tiles scenarioPlayer)) 7 = None"
    and o: "generateMoves (pickyEnv None) 0 (convertTilesToRack (tiles scenarioPlayer)) 7 =
     Some (Inr [moveAt ''CAT'' 7 7 H])"
    and z: "generateMoves (pickyEnv (Some (Inr []))) 1 (convertTilesToRack (tiles scenarioPlayer)) 7 = Some (Inr [])"
    and r: "random3 (pickyEnv m) = 1" for m
    by (simp_all add: pickyEnv_def)
  from timeout_or_no_candidates_gives_exchange[OF scenario_found g picky_board[of None]] t
  have 1: "generateMove (pickyEnv None) pickyService scenarioGame ''ai-1'' =
      Inr (generateStrategicExchange (random3 (pickyEnv None)) (tiles scenarioPlayer))" by blast
  from timeout_or_no_candidates_gives_exchange[OF scenario_found g picky_board[of "Some (Inr [])"]] z
  have 2: "generateMove (pickyEnv (Some (Inr []))) pickyService scenarioGame ''ai-1'' =
      Inr (generateStrategicExchange (random3 (pickyEnv (Some (Inr [])))) (tiles scenarioPlayer))" by blast
  from 1 2 t o z picky_board[of None] show ?thesis by (simp add: r picky_exchange)
qed


text \<open>
  Claim C9, as amended. \<open>generateMove\<close> never rejects and resolves to a move of type WORD,
  EXCHANGE or PASS, of type PASS exactly when the player id is unknown. For a known player
  each of the following gives the strategic exchange, of type EXCHANGE: the initialization
  times out or fails, the GADDAG or the dictionary is missing, the conversion of the board
  fails, the generation called on the converted board times out or fails, or none of the
  first 15 candidates passes validation. The failed conversion of a candidate is not
  propagated either, but it does not give the exchange by itself: the first of the first 15
  candidates that passes validation is returned as a WORD move with its placed tiles.
\<close>

theorem generateMove_total:
  "(\<exists>aiMove. generateMove env svc gameState playerId = Inr aiMove \<and>
       move_type aiMove \<in> {WORD, EXCHANGE, PASS} \<and>
       (move_type aiMove = PASS \<longleftrightarrow>
          find (\<lambda>p. player_id p = playerId) (players gameState) = None)) \<and>
   (find (\<lambda>p. player_id p = playerId) (players gameState) = None \<longrightarrow>
      generateMove env svc gameState playerId =
        Inr \<lparr>move_type = PASS, move_tiles = None, exchangeTileIds = None\<rparr>) \<and>
   (\<forall>player.
      find (\<lambda>p. player_id p = playerId) (players gameState) = Some player \<longrightarrow>
      (initSettled env = None \<or> (\<exists>e. initSettled env = Some (Inl e)) \<or>
       gaddag svc = None \<or> dictionary svc = None \<or>
       (\<exists>e. convertToGaddagBoard env svc (board gameState) = Inl e) \<longrightarrow>
         generateMove env svc gameState playerId =
           Inr (generateStrategicExchange (random3 env) (tiles player)) \<and>
         move_type (generateStrategicExchange (random3 env) (tiles player)) = EXCHANGE) \<and>
      (\<forall>g gaddagBoard.
         gaddag svc = Some g \<and> convertToGaddagBoard env svc (board gameState) = Inr gaddagBoard \<and>
         (generateMoves env gaddagBoard (convertTilesToRack (tiles player)) g = None \<or>
          (\<exists>e. generateMoves env gaddagBoard (convertTilesToRack (tiles player)) g = Some (Inl e))) \<longrightarrow>
         generateMove env svc gameState playerId =
           Inr (generateStrategicExchange (random3 env) (tiles player)) \<and>
         move_type (generateStrategicExchange (random3 env) (tiles player)) = EXCHANGE) \<and>
      (\<forall>g gaddagBoard moves.
         gaddag svc = Some g \<and> convertToGaddagBoard env svc (board gameState) = Inr gaddagBoard \<and>
         generateMoves env gaddagBoard (convertTilesToRack (tiles player)) g = Some (Inr moves) \<and>
         (\<forall>j<min 15 (length moves).
             \<not> passesValidation env (tiles player) (board gameState) (moves ! j)) \<longrightarrow>
         generateMove env svc gameState playerId =
           Inr (generateStrategicExchange (random3 env) (tiles player)) \<and>
         move_type (generateStrategicExchange (random3 env) (tiles player)) = EXCHANGE) \<and>
      (\<forall>g gaddagBoard moves j.
         initSettled env = Some (Inr ()) \<and> gaddag svc = Some g \<and>
         convertToGaddagBoard env svc (board gameState) = Inr gaddagBoard \<and>
         generateMoves env gaddagBoard (convertTilesToRack (tiles player)) g = Some (Inr moves) \<and>
         j < min 15 (length moves) \<and>
         passesValidation env (tiles player) (board gameState) (moves ! j) \<and>
         (\<forall>k<j. \<not> passesValidation env (tiles player) (board gameState) (moves ! k)) \<longrightarrow>
         generateMove env svc gameState playerId =
           Inr \<lparr>move_type = WORD,
                move_tiles = Some (convertGaddagMoveToPlacedTiles (moves ! j) (tiles player) (board gameState)),
                exchangeTileIds = None\<rparr>))"
proof (intro conjI allI impI)
  show "\<exists>aiMove. generateMove env svc gameState playerId = Inr aiMove \<and>
       move_type aiMove \<in> {WORD, EXCHANGE, PASS} \<and>
       (move_type aiMove = PASS \<longleftrightarrow>
          find (\<lambda>p. player_id p = playerId) (players gameState) = None)"
  proof (cases "find (\<lambda>p. player_id p = playerId) (players gameState)")
    case None
    then show ?thesis by (simp add: generateMove_def)
  next
    case (Some player)
    from generateMove_cases[OF Some, of env svc] show ?thesis
      by (auto simp: exchange_type Some)
  qed
next
  assume "find (\<lambda>p. player_id p = playerId) (players gameState) = None"
  then show "generateMove env svc gameState playerId =
        Inr \<lparr>move_type = PASS, move_tiles = None, exchangeTileIds = None\<rparr>"
    by (simp add: generateMove_def)
next
  fix player
  assume found: "find (\<lambda>p. player_id p = playerId) (players gameState) = Some player"
    and fail: "initSettled env = None \<or> (\<exists>e. initSettled env = Some (Inl e)) \<or>
       gaddag svc = None \<or> dictionary svc = None \<or>
       (\<exists>e. convertToGaddagBoard env svc (board gameState) = Inl e)"
  from generateMove_cases[OF found, of env svc]
  show "generateMove env svc gameState playerId =
           Inr (generateStrategicExchange (random3 env) (tiles player))"
  proof
    assume "generateMove env svc gameState playerId =
           Inr (generateStrategicExchange (random3 env) (tiles player))"
    then show ?thesis .
  next
    assume "\<exists>g gaddagBoard moves j.
            initSettled env = Some (Inr ()) \<and> gaddag svc = Some g \<and> dictionary svc \<noteq> None \<and>
            convertToGaddagBoard env svc (board gameState) = Inr gaddagBoard \<and>
            generateMoves env gaddagBoard (convertTilesToRack (tiles player)) g = Some (Inr moves) \<and>
            j < min 15 (length moves) \<and>
            passesValidation env (tiles player) (board gameState) (moves ! j) \<and>
            generateMove env svc gameState playerId =
              Inr \<lparr>move_type = WORD,
                   move_tiles = Some (convertGaddagMoveToPlacedTiles (moves ! j) (tiles player) (board gameState)),
                   exchangeTileIds = None\<rparr>"
    then obtain g gaddagBoard where "initSettled env = Some (Inr ())" "gaddag svc = Some g"
      "dictionary svc \<noteq> None" "convertToGaddagBoard env svc (board gameState) = Inr gaddagBoard"
      by blast
    with fail have False by auto
    then show ?thesis ..
  qed
next
  fix player
  show "move_type (generateStrategicExchange (random3 env) (tiles player)) = EXCHANGE"
    by (rule exchange_type)
next
  fix player g gaddagBoard
  assume found: "find (\<lambda>p. player_id p = playerId) (players gameState) = Some player"
    and a: "gaddag svc = Some g \<and> convertToGaddagBoard env svc (board gameState) = Inr gaddagBoard \<and>
         (generateMoves env gaddagBoard (convertTilesToRack (tiles player)) g = None \<or>
          (\<exists>e. generateMoves env gaddagBoard (convertTilesToRack (tiles player)) g = Some (Inl e)))"
  then have g: "gaddag svc = Some g" and b: "convertToGaddagBoard env svc (board gameState) = Inr gaddagBoard"
    by blast+
  from generateMove_at_call[OF found g b] a
  show "generateMove env svc gameState playerId =
           Inr (generateStrategicExchange (random3 env) (tiles player))"
    by (auto split: option.splits sum.splits)
next
  fix player g gaddagBoard
  show "move_type (generateStrategicExchange (random3 env) (tiles player)) = EXCHANGE"
    by (rule exchange_type)
next
  fix player g gaddagBoard moves
  assume found: "find (\<lambda>p. player_id p = playerId) (players gameState) = Some player"
    and a: "gaddag svc = Some g \<and> convertToGaddagBoard env svc (board gameState) = Inr gaddagBoard \<and>
         generateMoves env gaddagBoard (convertTilesToRack (tiles player)) g = Some (Inr moves) \<and>
         (\<forall>j<min 15 (length moves).
             \<not> passesValidation env (tiles player) (board gameState) (moves ! j))"
  then have g: "gaddag svc = Some g" and b: "convertToGaddagBoard env svc (board gameState) = Inr gaddagBoard"
    and m: "generateMoves env gaddagBoard (convertTilesToRack (tiles player)) g = Some (Inr moves)"
    by blast+
  from a have "\<forall>m\<in>set (take 15 moves). \<not> passesValidation env (tiles player) (board gameState) m"
    by (auto simp: in_set_conv_nth)
  from tryMoves_none[OF this] generateMove_at_call[OF found g b] m
  show "generateMove env svc gameState playerId =
           Inr (generateStrategicExchange (random3 env) (tiles player))"
    by (auto split: option.splits sum.splits)
next
  fix player g gaddagBoard moves
  show "move_type (generateStrategicExchange (random3 env) (tiles player)) = EXCHANGE"
    by (rule exchange_type)
next
  fix player g gaddagBoard moves j
  assume found: "find (\<lambda>p. player_id p = playerId) (players gameState) = Some player"
    and a: "initSettled env = Some (Inr ()) \<and> gaddag svc = Some g \<and>
         convertToGaddagBoard env svc (board gameState) = Inr gaddagBoard \<and>
         generateMoves env gaddagBoard (convertTilesToRack (tiles player)) g = Some (Inr moves) \<and>
         j < min 15 (length moves) \<and>
         passesValidation env (tiles player) (board gameState) (moves ! j) \<and>
         (\<forall>k<j. \<not> passesValidation env (tiles player) (board gameState) (moves ! k))"
  then have g: "gaddag svc = Some g" and b: "convertToGaddagBoard env svc (board gameState) = Inr gaddagBoard"
    and i: "initSettled env = Some (Inr ())"
    and m: "generateMoves env gaddagBoard (convertTilesToRack (tiles player)) g = Some (Inr moves)"
    by blast+
  from a have "j < length (take 15 moves)" "passesValidation env (tiles player) (board gameState) (take 15 moves ! j)"
      "\<forall>k<j. \<not> passesValidation env (tiles player) (board gameState) (take 15 moves ! k)"
    by auto
  from tryMoves_first[OF this] a generateMove_at_call[OF found g b] i m
  show "generateMove env svc gameState playerId =
           Inr \<lparr>move_type = WORD,
                move_tiles = Some (convertGaddagMoveToPlacedTiles (moves ! j) (tiles player) (board gameState)),
                exchangeTileIds = None\<rparr>"
    by simp
qed

theorem generateMove_total_witness:
  "initSettled (scenarioEnv None (Some (Inr [moveAt ''CAT'' 7 7 H]))) = None \<and>
   generateMove (scenarioEnv None (Some (Inr [moveAt ''CAT'' 7 7 H]))) scenarioService scenarioGame ''ai-1'' =
     Inr \<lparr>move_type = EXCHANGE, move_tiles = None, exchangeTileIds = Some [''t3'', ''t1'', ''t2'']\<rparr> \<and>
   find (\<lambda>p. player_id p = ''nobody'') (players scenarioGame) = None \<and>
   generateMove (scenarioEnv None (Some (Inr [moveAt ''CAT'' 7 7 H]))) scenarioService scenarioGame ''nobody'' =
     Inr \<lparr>move_type = PASS, move_tiles = None, exchangeTileIds = None\<rparr> \<and>
   convertToGaddagBoard (pickyEnv (Some (Inl (Error ''generator failed'')))) pickyService (board scenarioGame) = Inr 1 \<and>
   generateMoves (pickyEnv (Some (Inl (Error ''generator failed'')))) 1 (convertTilesToRack (tiles scenarioPlayer)) 7 =
     Some (Inl (Error ''generator failed'')) \<and>
   generateMove (pickyEnv (Some (Inl (Error ''generator failed'')))) pickyService scenarioGame ''ai-1'' =
     Inr \<lparr>move_type = EXCHANGE, move_tiles = None, exchangeTileIds = Some [''t3'', ''t1'', ''t2'']\<rparr> \<and>
   passesValidation (acceptAllEnv (Some (Inr [moveAt ''ZA'' 7 7 H, moveAt ''AT'' 7 7 V])))
      (tiles scenarioPlayer) (board scenarioGame) (moveAt ''ZA'' 7 7 H) \<and>
   generateMove (acceptAllEnv (Some (Inr [moveAt ''ZA'' 7 7 H, moveAt ''AT'' 7 7 V])))
      scenarioService scenarioGame ''ai-1'' =
     Inr \<lparr>move_type = WORD, move_tiles = Some [], exchangeTileIds = None\<rparr>"
proof -
  let ?env = "scenarioEnv None (Some (Inr [moveAt ''CAT'' 7 7 H]))"
  let ?penv = "pickyEnv (Some (Inl (Error ''generator failed'')))"
  let ?moves = "[moveAt ''ZA'' 7 7 H, moveAt ''AT'' 7 7 V]"
  let ?aenv = "acceptAllEnv (Some (Inr ?moves))"
  have i: "initSettled ?env = None" and r: "random3 ?env = 0" by (simp_all add: scenarioEnv_def)
  have n: "find (\<lambda>p. player_id p = ''nobody'') (players scenarioGame) = None"
    by (simp add: scenarioGame_def scenarioPlayer_def)
  from generateMove_total[of ?env scenarioService scenarioGame "''ai-1''"] scenario_found i
  have 1: "generateMove ?env scenarioService scenarioGame ''ai-1'' =
        Inr (generateStrategicExchange (random3 ?env) (tiles scenarioPlayer))" by blast
  from generateMove_total[of ?env scenarioService scenarioGame "''nobody''"] n
  have 2: "generateMove ?env scenarioService scenarioGame ''nobody'' =
     Inr \<lparr>move_type = PASS, move_tiles = None, exchangeTileIds = None\<rparr>" by blast
  have g: "gaddag pickyService = Some 7" by (simp add: pickyService_def)
  have f: "generateMoves ?penv 1 (convertTilesToRack (tiles scenarioPlayer)) 7 =
     Some (Inl (Error ''generator failed''))"
    and pr: "random3 ?penv = Suc 0"
    by (simp_all add: pickyEnv_def)
  from generateMove_total[of ?penv pickyService scenarioGame "''ai-1''"] scenario_found g
    picky_board[of "Some (Inl (Error ''generator failed''))"] f
  have 3: "generateMove ?penv pickyService scenarioGame ''ai-1'' =
        Inr (generateStrategicExchange (random3 ?penv) (tiles scenarioPlayer))" by blast
  have c: "convertGaddagMoveToPlacedTiles (moveAt ''ZA'' 7 7 H) (tiles scenarioPlayer) (board scenarioGame) = []"
    by code_simp
  have p: "passesValidation ?aenv (tiles scenarioPlayer) (board scenarioGame) (moveAt ''ZA'' 7 7 H)"
    by (simp add: passesValidation_def acceptAllEnv_def)
  have ab: "convertToGaddagBoard ?aenv scenarioService (board scenarioGame) = Inr ()"
  proof -
    have "gridComplete createEmptyBoard" by code_simp
    then show ?thesis
      by (simp add: convertToGaddagBoard_def existingTiles_def scenarioService_def scenarioGame_def
          acceptAllEnv_def)
  qed
  have ah: "initSettled ?aenv = Some (Inr ())" "gaddag scenarioService = Some ()"
    "generateMoves ?aenv () (convertTilesToRack (tiles scenarioPlayer)) () = Some (Inr ?moves)"
    by (simp_all add: acceptAllEnv_def scenarioService_def)
  have j: "(0::nat) < min 15 (length ?moves) \<and>
      passesValidation ?aenv (tiles scenarioPlayer) (board scenarioGame) (?moves ! 0) \<and>
      (\<forall>k<0. \<not> passesValidation ?aenv (tiles scenarioPlayer) (board scenarioGame) (?moves ! k))"
    using p by simp
  from generateMove_total[of ?aenv scenarioService scenarioGame "''ai-1''"] scenario_found ah ab j
  have "generateMove ?aenv scenarioService scenarioGame ''ai-1'' =
     Inr \<lparr>move_type = WORD,
          move_tiles = Some (convertGaddagMoveToPlacedTiles (?moves ! 0) (tiles scenarioPlayer) (board scenarioGame)),
          exchangeTileIds = None\<rparr>" by blast
  then have 4: "generateMove ?aenv scenarioService scenarioGame ''ai-1'' =
     Inr \<lparr>move_type = WORD, move_tiles = Some [], exchangeTileIds = None\<rparr>"
    by (simp add: c)
  from 1 2 3 4 i n f p picky_board[of "Some (Inl (Error ''generator failed''))"]
  show ?thesis by (simp add: r pr scenario_exchange picky_exchange)
qed


text \<open>
  Claim C9 as stated fails where it says that a failed move conversion gives an exchange:
  the first candidate below cannot be converted (the rack has no Z) and its placement is
  empty. With a validator that refuses the empty placement the second candidate is played;
  with a validator that accepts everything the empty placement itself is returned. Both
  results are WORD moves.
\<close>

theorem conversion_failure_not_always_exchange:
  "convertGaddagMoveToPlacedTiles (moveAt ''ZA'' 7 7 H) (tiles scenarioPlayer) (board scenarioGame) = [] \<and>
   generateMove (scenarioEnv (Some (Inr ())) (Some (Inr [moveAt ''ZA'' 7 7 H, moveAt ''AT'' 7 7 V])))
      scenarioService scenarioGame ''ai-1'' =
     Inr \<lparr>move_type = WORD,
          move_tiles = Some [\<lparr>placed_tile = plainTile ''t2'' ''A'' 1, placed_row = 7, placed_col = 7\<rparr>,
                             \<lparr>placed_tile = plainTile ''t3'' ''T'' 1, placed_row = 8, placed_col = 7\<rparr>],
          exchangeTileIds = None\<rparr> \<and>
   generateMove (acceptAllEnv (Some (Inr [moveAt ''ZA'' 7 7 H, moveAt ''AT'' 7 7 V])))
      scenarioService scenarioGame ''ai-1'' =
     Inr \<lparr>move_type = WORD, move_tiles = Some [], exchangeTileIds = None\<rparr> \<and>
   WORD \<noteq> EXCHANGE"
  by code_simp


section \<open>Properties of the word list and the GADDAG build\<close>

lemma addChunk_append:
  "addChunk add (xs @ ys) g = addChunk add ys (addChunk add xs g)"
  by (simp add: addChunk_def)

lemma chunkLoop_drop:
  "chunkLoop add ws i g = addChunk add (drop i ws) g"
proof (induction add ws i g rule: chunkLoop.induct)
  case (1 add ws i g)
  show ?case
  proof (cases "i < length ws")
    case True
    have "take CHUNK_SIZE (drop i ws) @ drop CHUNK_SIZE (drop i ws) = drop i ws"
      by (rule append_take_drop_id)
    then have "drop i ws = take CHUNK_SIZE (drop i ws) @ drop (i + CHUNK_SIZE) ws"
      by (simp add: add.commute)
    then have "addChunk add (drop i ws) g =
        addChunk add (drop (i + CHUNK_SIZE) ws) (addChunk add (take CHUNK_SIZE (drop i ws)) g)"
      by (metis addChunk_append)
    moreover have "chunkLoop add ws i g =
        chunkLoop add ws (i + CHUNK_SIZE) (addChunk add (take CHUNK_SIZE (drop i ws)) g)"
      using True by (subst chunkLoop.simps) simp
    ultimately show ?thesis using "1.IH"[OF True] by simp
  next
    case False
    then show ?thesis by (subst chunkLoop.simps) (simp add: addChunk_def)
  qed
qed

lemma chunkLoop_all:
  "chunkLoop add ws 0 g = addChunk add ws g"
  by (simp add: chunkLoop_drop)

lemma addChunk_recording:
  "addChunk (\<lambda>word calls. calls @ [word]) ws acc = acc @ filter (\<lambda>w. w \<noteq> []) ws"
  by (induction ws arbitrary: acc) (auto simp: addChunk_def)

lemma toUpperCase_Nil_iff [simp]: "toUpperCase w = [] \<longleftrightarrow> w = []"
  by (simp add: toUpperCase_def)

lemma toUpperChar_not_lower: "\<not> isLowerChar (toUpperChar c)"
proof (cases "97 \<le> (of_char c :: nat) \<and> (of_char c :: nat) \<le> 122")
  case True
  define n where "n = (of_char c :: nat)"
  from True have n: "97 \<le> n" "n \<le> 122" by (simp_all add: n_def)
  then have "n - 32 < 256" by arith
  then have "(of_char (char_of (n - 32)) :: nat) = n - 32" by simp
  moreover from n have "\<not> (97 \<le> n - 32 \<and> n - 32 \<le> 122)" by arith
  moreover from n have "toUpperChar c = char_of (n - 32)"
    by (simp add: toUpperChar_def Let_def n_def)
  ultimately show ?thesis by (simp add: isLowerChar_def)
next
  case False
  then show ?thesis by (auto simp: isLowerChar_def toUpperChar_def Let_def)
qed

lemma toUpperCase_no_lower: "c \<in> set (toUpperCase w) \<Longrightarrow> \<not> isLowerChar c"
  by (auto simp: toUpperCase_def toUpperChar_not_lower)

lemma trim_Cons_space: "isWhiteSpace c \<Longrightarrow> trim (c # l) = trim l"
  by (simp add: trim_def)

lemma trim_snoc_space: "isWhiteSpace c \<Longrightarrow> trim (l @ [c]) = trim l"
proof (cases "\<forall>x\<in>set l. isWhiteSpace x")
  case True
  assume c: "isWhiteSpace c"
  from True have 1: "dropWhile isWhiteSpace l = []"
    unfolding dropWhile_eq_Nil_conv .
  from True c have "\<forall>x\<in>set (l @ [c]). isWhiteSpace x" by simp
  then have 2: "dropWhile isWhiteSpace (l @ [c]) = []"
    unfolding dropWhile_eq_Nil_conv .
  show ?thesis unfolding trim_def 1 2 by simp
next
  case False
  assume c: "isWhiteSpace c"
  from False have "dropWhile isWhiteSpace (l @ [c]) = dropWhile isWhiteSpace l @ [c]"
    by (auto simp: dropWhile_append1)
  with c show ?thesis by (simp add: trim_def)
qed

lemma trim_Nil [simp]: "trim [] = []"
  by (simp add: trim_def)

lemma newline_space: "isWhiteSpace (CHR 0x0A)"
  by (simp add: isWhiteSpace_def)

lemma splitLines_nonempty [simp]: "splitLines s \<noteq> []"
  by (induction s) (auto split: list.splits)

lemma nonEmptyTrimmed_split_Cons_space:
  assumes "isWhiteSpace c"
  shows "nonEmptyTrimmed (splitLines (c # cs)) = nonEmptyTrimmed (splitLines cs)"
proof (cases "c = CHR 0x0A")
  case True
  then show ?thesis by (simp add: nonEmptyTrimmed_def)
next
  case False
  obtain l ls where s: "splitLines cs = l # ls" by (cases "splitLines cs") auto
  with False assms show ?thesis by (simp add: nonEmptyTrimmed_def trim_Cons_space)
qed

lemma nonEmptyTrimmed_dropWhile: "nonEmptyTrimmed (splitLines (dropWhile isWhiteSpace s)) = nonEmptyTrimmed (splitLines s)"
proof (induction s)
  case Nil
  then show ?case by simp
next
  case (Cons c cs)
  show ?case
  proof (cases "isWhiteSpace c")
    case True
    with Cons nonEmptyTrimmed_split_Cons_space[OF True, of cs] show ?thesis by simp
  next
    case False
    then show ?thesis by simp
  qed
qed

lemma splitLines_snoc:
  "splitLines (xs @ [c]) =
     (if c = CHR 0x0A then splitLines xs @ [[]]
      else butlast (splitLines xs) @ [last (splitLines xs) @ [c]])"
proof (induction xs)
  case Nil
  then show ?case by simp
next
  case (Cons x xs)
  obtain l ls where s: "splitLines xs = l # ls" by (cases "splitLines xs") auto
  show ?case
  proof (cases "x = CHR 0x0A")
    case True
    note xnl = this
    show ?thesis
    proof (cases "c = CHR 0x0A")
      case True
      with Cons.IH have "splitLines (xs @ [c]) = splitLines xs @ [[]]" by simp
      with True xnl show ?thesis by simp
    next
      case False
      with Cons.IH s have "splitLines (xs @ [c]) = butlast (l # ls) @ [last (l # ls) @ [c]]" by simp
      with False xnl s show ?thesis by simp
    qed
  next
    case False
    note nl = this
    show ?thesis
    proof (cases "c = CHR 0x0A")
      case True
      with Cons.IH s have "splitLines (xs @ [c]) = l # ls @ [[]]" by simp
      with True nl s show ?thesis by simp
    next
      case False
      show ?thesis
      proof (cases ls)
        case Nil
        with Cons.IH s False have "splitLines (xs @ [c]) = [l @ [c]]" by simp
        with False nl s Nil show ?thesis by simp
      next
        case (Cons k ks)
        with \<open>splitLines (xs @ [c]) = (if c = CHR 0x0A then splitLines xs @ [[]] else butlast (splitLines xs) @ [last (splitLines xs) @ [c]])\<close> s False have "splitLines (xs @ [c]) = l # butlast ls @ [last ls @ [c]]" by simp
        with False nl s Cons show ?thesis by simp
      qed
    qed
  qed
qed

lemma nonEmptyTrimmed_split_snoc_space:
  assumes "isWhiteSpace c"
  shows "nonEmptyTrimmed (splitLines (xs @ [c])) = nonEmptyTrimmed (splitLines xs)"
proof (cases "c = CHR 0x0A")
  case True
  then show ?thesis by (simp add: splitLines_snoc nonEmptyTrimmed_def)
next
  case False
  have "splitLines xs = butlast (splitLines xs) @ [last (splitLines xs)]" by simp
  then have "nonEmptyTrimmed (splitLines xs) = nonEmptyTrimmed (butlast (splitLines xs)) @ nonEmptyTrimmed [last (splitLines xs)]"
    by (metis filter_append map_append nonEmptyTrimmed_def)
  moreover have "nonEmptyTrimmed (splitLines (xs @ [c])) = nonEmptyTrimmed (butlast (splitLines xs)) @ nonEmptyTrimmed [last (splitLines xs) @ [c]]"
    using False by (simp add: splitLines_snoc nonEmptyTrimmed_def)
  moreover have "nonEmptyTrimmed [last (splitLines xs) @ [c]] = nonEmptyTrimmed [last (splitLines xs)]"
    using assms by (simp add: nonEmptyTrimmed_def trim_snoc_space)
  ultimately show ?thesis by simp
qed

lemma nonEmptyTrimmed_rev_dropWhile:
  "nonEmptyTrimmed (splitLines (rev (dropWhile isWhiteSpace (rev s)))) = nonEmptyTrimmed (splitLines s)"
proof (induction s rule: rev_induct)
  case Nil
  then show ?case by simp
next
  case (snoc c xs)
  show ?case
  proof (cases "isWhiteSpace c")
    case True
    with snoc nonEmptyTrimmed_split_snoc_space[OF True, of xs] show ?thesis by simp
  next
    case False
    then show ?thesis by simp
  qed
qed

lemma nonEmptyTrimmed_trim: "nonEmptyTrimmed (splitLines (trim s)) = nonEmptyTrimmed (splitLines s)"
  unfolding trim_def by (simp add: nonEmptyTrimmed_rev_dropWhile nonEmptyTrimmed_dropWhile)

lemma nonempty_parseWords:
  "filter (\<lambda>w. w \<noteq> []) (parseWords content) =
   filter (\<lambda>w. w \<noteq> []) (map (\<lambda>line. toUpperCase (trim line)) (splitLines content))"
proof -
  have "filter (\<lambda>w. w \<noteq> []) (map (\<lambda>line. toUpperCase (trim line)) ls) = map toUpperCase (nonEmptyTrimmed ls)" for ls
    by (induction ls) (auto simp: nonEmptyTrimmed_def)
  then show ?thesis by (simp add: parseWords_def nonEmptyTrimmed_trim)
qed

lemma firstExisting_None:
  "firstExisting fs ps = None \<longleftrightarrow> (\<forall>p\<in>set ps. fs p = None)"
  by (induction ps) (auto split: option.splits)

lemma parseWords_nonempty: "parseWords content \<noteq> []"
  by (simp add: parseWords_def)

lemma addChunk_no_words:
  "\<forall>w\<in>set ws. w = [] \<Longrightarrow> addChunk add ws g = g"
  by (induction ws) (simp_all add: addChunk_def)

text \<open>
  Claim C7. When the build returns, the words handed to \<open>addWord\<close>, in order, are the
  lines of the word source, each trimmed and put in upper case, with the empty results left
  out: every word that reaches \<open>addWord\<close> has length at least 1 and no lower-case letter.
\<close>

theorem addWord_receives_normalized_nonempty_lines:
  assumes "addWordCalls fs cwd dirname = Inr calls"
  shows "\<exists>content.
           firstExisting fs (possiblePaths cwd dirname) = Some (Readable content) \<and>
           calls = filter (\<lambda>w. w \<noteq> []) (map (\<lambda>line. toUpperCase (trim line)) (splitLines content)) \<and>
           (\<forall>w\<in>set calls. 1 \<le> length w \<and> (\<forall>c\<in>set w. \<not> isLowerChar c))"
proof -
  from assms obtain content where f: "firstExisting fs (possiblePaths cwd dirname) = Some (Readable content)"
    and c: "calls = chunkLoop (\<lambda>word calls. calls @ [word]) (parseWords content) 0 []"
    by (auto simp: addWordCalls_def buildGaddagFromDictionaryService_def split: option.splits fsEntry.splits)
  from c have calls: "calls = filter (\<lambda>w. w \<noteq> []) (map (\<lambda>line. toUpperCase (trim line)) (splitLines content))"
    by (simp add: chunkLoop_all addChunk_recording nonempty_parseWords)
  have "\<forall>w\<in>set calls. 1 \<le> length w \<and> (\<forall>c\<in>set w. \<not> isLowerChar c)"
  proof
    fix w assume "w \<in> set calls"
    with calls obtain line where "w = toUpperCase (trim line)" "w \<noteq> []" by auto
    then show "1 \<le> length w \<and> (\<forall>c\<in>set w. \<not> isLowerChar c)"
      by (auto simp: toUpperCase_no_lower Suc_le_eq)
  qed
  with f calls show ?thesis by blast
qed

theorem addWord_receives_normalized_nonempty_lines_witness:
  "addWordCalls (wordFile ''cat\<newline>  \<newline> Dog \<newline>'') ''/app'' ''/app/dist/services'' = Inr [''CAT'', ''DOG''] \<and>
   splitLines ''cat\<newline>  \<newline> Dog \<newline>'' = [''cat'', ''  '', '' Dog '', ''''] \<and>
   filter (\<lambda>w. w \<noteq> []) (map (\<lambda>line. toUpperCase (trim line)) (splitLines ''cat\<newline>  \<newline> Dog \<newline>'')) = [''CAT'', ''DOG'']"
proof -
  have a: "addWordCalls (wordFile ''cat\<newline>  \<newline> Dog \<newline>'') ''/app'' ''/app/dist/services'' = Inr [''CAT'', ''DOG'']"
    by code_simp
  have f: "firstExisting (wordFile ''cat\<newline>  \<newline> Dog \<newline>'') (possiblePaths ''/app'' ''/app/dist/services'')
     = Some (Readable ''cat\<newline>  \<newline> Dog \<newline>'')"
    by code_simp
  have s: "splitLines ''cat\<newline>  \<newline> Dog \<newline>'' = [''cat'', ''  '', '' Dog '', '''']"
    by code_simp
  from addWord_receives_normalized_nonempty_lines[OF a] f
  have "[''CAT'', ''DOG''] = filter (\<lambda>w. w \<noteq> []) (map (\<lambda>line. toUpperCase (trim line)) (splitLines ''cat\<newline>  \<newline> Dog \<newline>''))"
    by auto
  with a s show ?thesis by simp
qed

text \<open>
  Claim C2, as amended. When none of the three paths exists, \<open>loadDictionary\<close> (on a
  service that has not loaded yet) and \<open>buildGaddagFromDictionaryService\<close> throw. When the
  word source exists and holds no word, both return: the dictionary service holds the set
  with the empty string only, and the GADDAG comes back as it was created.
\<close>

theorem missing_word_source_throws:
  "((\<forall>p\<in>set (possiblePaths cwd dirname). fs p = None) \<and> \<not> (isLoaded svc \<and> words svc \<noteq> None) \<longrightarrow>
      loadDictionary fs cwd dirname svc = Inl (Error ''Could not load dictionary from local files'') \<and>
      buildGaddagFromDictionaryService fs cwd dirname newGaddag add = Inl (noFileFound cwd dirname)) \<and>
   (firstExisting fs (possiblePaths cwd dirname) = Some (Readable content) \<and>
    (\<forall>w\<in>set (parseWords content). w = []) \<and> \<not> (isLoaded svc \<and> words svc \<noteq> None) \<longrightarrow>
      loadDictionary fs cwd dirname svc = Inr (svc\<lparr>words := Some {[]}, isLoaded := True\<rparr>) \<and>
      buildGaddagFromDictionaryService fs cwd dirname newGaddag add = Inr newGaddag)"
proof (intro conjI impI)
  assume a: "(\<forall>p\<in>set (possiblePaths cwd dirname). fs p = None) \<and> \<not> (isLoaded svc \<and> words svc \<noteq> None)"
  then have n: "firstExisting fs (possiblePaths cwd dirname) = None"
    by (simp add: firstExisting_None)
  with a show "loadDictionary fs cwd dirname svc = Inl (Error ''Could not load dictionary from local files'')"
    by (auto simp: loadDictionary_def)
  from n show "buildGaddagFromDictionaryService fs cwd dirname newGaddag add = Inl (noFileFound cwd dirname)"
    by (simp add: buildGaddagFromDictionaryService_def)
next
  assume a: "firstExisting fs (possiblePaths cwd dirname) = Some (Readable content) \<and>
    (\<forall>w\<in>set (parseWords content). w = []) \<and> \<not> (isLoaded svc \<and> words svc \<noteq> None)"
  then have sub: "set (parseWords content) \<subseteq> {[]}" by auto
  obtain w ws where "parseWords content = w # ws"
    using parseWords_nonempty[of content] by (cases "parseWords content") auto
  then have "w \<in> set (parseWords content)" by simp
  with sub have "[] \<in> set (parseWords content)" by auto
  with sub have s: "set (parseWords content) = {[]}" by auto
  from a have f: "firstExisting fs (possiblePaths cwd dirname) = Some (Readable content)"
    and nl: "\<not> (isLoaded svc \<and> words svc \<noteq> None)" by blast+
  from nl show "loadDictionary fs cwd dirname svc = Inr (svc\<lparr>words := Some {[]}, isLoaded := True\<rparr>)"
    by (auto simp: loadDictionary_def f s)
  from a have "\<forall>w\<in>set (parseWords content). w = []" by blast
  then have "addChunk add (parseWords content) newGaddag = newGaddag"
    by (rule addChunk_no_words)
  then show "buildGaddagFromDictionaryService fs cwd dirname newGaddag add = Inr newGaddag"
    unfolding buildGaddagFromDictionaryService_def f by (simp add: chunkLoop_all)
qed

theorem missing_word_source_throws_witness:
  "map noFiles (possiblePaths ''/app'' ''/app/dist/services'') = [None, None, None] \<and>
   \<not> (isLoaded freshDictionaryService \<and> words freshDictionaryService \<noteq> None) \<and>
   loadDictionary noFiles ''/app'' ''/app/dist/services'' freshDictionaryService =
     Inl (Error ''Could not load dictionary from local files'') \<and>
   buildGaddagFromDictionaryService noFiles ''/app'' ''/app/dist/services'' emptyGaddag addWord =
     Inl (noFileFound ''/app'' ''/app/dist/services'') \<and>
   firstExisting (wordFile '' \<newline>'') (possiblePaths ''/app'' ''/app/dist/services'') = Some (Readable '' \<newline>'') \<and>
   parseWords '' \<newline>'' = [[]] \<and>
   loadDictionary (wordFile '' \<newline>'') ''/app'' ''/app/dist/services'' freshDictionaryService =
     Inr \<lparr>words = Some {[]}, isLoaded = True\<rparr> \<and>
   buildGaddagFromDictionaryService (wordFile '' \<newline>'') ''/app'' ''/app/dist/services'' emptyGaddag addWord =
     Inr emptyGaddag"
proof -
  have h0: "map noFiles (possiblePaths ''/app'' ''/app/dist/services'') = [None, None, None]"
    by (simp add: noFiles_def possiblePaths_def)
  have h1: "\<forall>p\<in>set (possiblePaths ''/app'' ''/app/dist/services''). noFiles p = None"
    by (simp add: noFiles_def)
  have h2: "\<not> (isLoaded freshDictionaryService \<and> words freshDictionaryService \<noteq> None)"
    by (simp add: freshDictionaryService_def)
  have h3: "firstExisting (wordFile '' \<newline>'') (possiblePaths ''/app'' ''/app/dist/services'') = Some (Readable '' \<newline>'')"
    by code_simp
  have p: "parseWords '' \<newline>'' = [[]]" by code_simp
  then have h4: "\<forall>w\<in>set (parseWords '' \<newline>''). w = []" by simp
  have u: "freshDictionaryService\<lparr>words := Some {[]}, isLoaded := True\<rparr> = \<lparr>words = Some {[]}, isLoaded = True\<rparr>"
    by (simp add: freshDictionaryService_def)
  from missing_word_source_throws[where cwd = "''/app''" and dirname = "''/app/dist/services''" and fs = noFiles
      and svc = freshDictionaryService and newGaddag = emptyGaddag and add = addWord]
    missing_word_source_throws[where cwd = "''/app''" and dirname = "''/app/dist/services''"
      and fs = "wordFile '' \<newline>''" and content = "'' \<newline>''"
      and svc = freshDictionaryService and newGaddag = emptyGaddag and add = addWord]
    h1 h2 h3 h4
  have "loadDictionary noFiles ''/app'' ''/app/dist/services'' freshDictionaryService =
     Inl (Error ''Could not load dictionary from local files'')"
    "buildGaddagFromDictionaryService noFiles ''/app'' ''/app/dist/services'' emptyGaddag addWord =
     Inl (noFileFound ''/app'' ''/app/dist/services'')"
    "loadDictionary (wordFile '' \<newline>'') ''/app'' ''/app/dist/services'' freshDictionaryService =
     Inr (freshDictionaryService\<lparr>words := Some {[]}, isLoaded := True\<rparr>)"
    "buildGaddagFromDictionaryService (wordFile '' \<newline>'') ''/app'' ''/app/dist/services'' emptyGaddag addWord =
     Inr emptyGaddag"
    by blast+
  with h0 h2 h3 p u show ?thesis by simp
qed

text \<open>
  Claim C2 as stated fails for a word source that exists and is empty: neither function
  throws. It also fails for \<open>loadDictionary\<close> on a service that has loaded its words
  before: with no file left it returns at once.
\<close>

theorem empty_word_source_does_not_throw:
  "firstExisting (wordFile []) (possiblePaths ''/app'' ''/app/dist/services'') = Some (Readable []) \<and>
   loadDictionary (wordFile []) ''/app'' ''/app/dist/services'' freshDictionaryService =
     Inr \<lparr>words = Some {[]}, isLoaded = True\<rparr> \<and>
   buildGaddagFromDictionaryService (wordFile []) ''/app'' ''/app/dist/services'' emptyGaddag addWord =
     Inr emptyGaddag \<and>
   firstExisting noFiles (possiblePaths ''/app'' ''/app/dist/services'') = None \<and>
   loadDictionary noFiles ''/app'' ''/app/dist/services'' \<lparr>words = Some {''CAT''}, isLoaded = True\<rparr> =
     Inr \<lparr>words = Some {''CAT''}, isLoaded = True\<rparr>"
proof (intro conjI)
  show f: "firstExisting (wordFile []) (possiblePaths ''/app'' ''/app/dist/services'') = Some (Readable [])"
    by code_simp
  have p: "parseWords [] = [[]]" by code_simp
  from f show "loadDictionary (wordFile []) ''/app'' ''/app/dist/services'' freshDictionaryService =
     Inr \<lparr>words = Some {[]}, isLoaded = True\<rparr>"
    by (simp add: loadDictionary_def freshDictionaryService_def p)
  show "buildGaddagFromDictionaryService (wordFile []) ''/app'' ''/app/dist/services'' emptyGaddag addWord =
     Inr emptyGaddag"
    by code_simp
  show "firstExisting noFiles (possiblePaths ''/app'' ''/app/dist/services'') = None"
    by (simp add: noFiles_def possiblePaths_def)
  show "loadDictionary noFiles ''/app'' ''/app/dist/services'' \<lparr>words = Some {''CAT''}, isLoaded = True\<rparr> =
     Inr \<lparr>words = Some {''CAT''}, isLoaded = True\<rparr>"
    by (simp add: loadDictionary_def)
qed

section \<open>Properties of the GADDAG\<close>

lemma map_of_setTransition:
  "map_of (setTransition k child ts) = (map_of ts)(k \<mapsto> child)"
  by (induction ts) auto

lemma walk_insertPath_self:
  "\<exists>n'. walk (insertPath p n) p = Some n' \<and> isTerminal n'"
proof (induction p arbitrary: n)
  case Nil
  show ?case by (cases n) simp
next
  case (Cons k p)
  obtain t ts where n: "n = GaddagNode t ts" by (cases n)
  from Cons[of "case map_of ts k of Some child \<Rightarrow> child | None \<Rightarrow> emptyGaddag"]
  show ?case by (simp add: n followTransition_def map_of_setTransition)
qed

lemma pathComplete_insertPath_self: "pathComplete (insertPath p n) p"
  using walk_insertPath_self[of p n] by (auto simp: pathComplete_def)

lemma pathComplete_insertPath_other:
  "pathComplete n q \<Longrightarrow> pathComplete (insertPath p n) q"
proof (induction p arbitrary: n q)
  case Nil
  then show ?case by (cases n; cases q) (auto simp: pathComplete_def followTransition_def)
next
  case (Cons k p)
  obtain t ts where n: "n = GaddagNode t ts" by (cases n)
  show ?case
  proof (cases q)
    case Nil
    with Cons.prems show ?thesis by (simp add: n pathComplete_def)
  next
    case (Cons k' q')
    note q = this
    show ?thesis
    proof (cases "k' = k")
      case False
      with Cons.prems q show ?thesis
        by (simp add: n pathComplete_def followTransition_def map_of_setTransition)
    next
      case True
      from Cons.prems q True obtain child where child: "map_of ts k = Some child" "pathComplete child q'"
        by (auto simp: n pathComplete_def followTransition_def split: option.splits)
      from Cons.IH[OF child(2), of ] have "pathComplete (insertPath p child) q'" .
      with child True q show ?thesis
        by (simp add: n pathComplete_def followTransition_def map_of_setTransition)
    qed
  qed
qed

lemma pathComplete_fold_insert_other:
  "pathComplete g q \<Longrightarrow> pathComplete (fold (\<lambda>i g'. insertPath (f i) g') is g) q"
  by (induction "is" arbitrary: g) (auto simp: pathComplete_insertPath_other)

lemma pathComplete_fold_insert_member:
  "i \<in> set is \<Longrightarrow> pathComplete (fold (\<lambda>i g'. insertPath (f i) g') is g) (f i)"
proof (induction "is" arbitrary: g)
  case Nil
  then show ?case by simp
next
  case (Cons j js)
  show ?case
  proof (cases "i = j")
    case True
    then show ?thesis
      by (simp add: pathComplete_fold_insert_other pathComplete_insertPath_self)
  next
    case False
    with Cons show ?thesis by simp
  qed
qed

lemma addWord_rotation: "i \<le> length w \<Longrightarrow> pathComplete (addWord w g) (rotation w i)"
  unfolding addWord_def by (rule pathComplete_fold_insert_member) auto

lemma addWord_keeps: "pathComplete g q \<Longrightarrow> pathComplete (addWord w g) q"
  unfolding addWord_def by (rule pathComplete_fold_insert_other)

lemma addChunk_keeps: "pathComplete g q \<Longrightarrow> pathComplete (addChunk addWord ws g) q"
  by (induction ws arbitrary: g) (auto simp: addChunk_def addWord_keeps)

lemma addChunk_rotation:
  "w \<in> set ws \<Longrightarrow> w \<noteq> [] \<Longrightarrow> i \<le> length w \<Longrightarrow> pathComplete (addChunk addWord ws g) (rotation w i)"
proof (induction ws arbitrary: g)
  case Nil
  then show ?case by simp
next
  case (Cons x xs)
  have step: "addChunk addWord (x # xs) g = addChunk addWord xs (if x \<noteq> [] then addWord x g else g)"
    by (simp add: addChunk_def)
  show ?case
  proof (cases "w = x")
    case True
    with Cons.prems have "pathComplete (addWord x g) (rotation w i)" by (simp add: addWord_rotation)
    with True Cons.prems show ?thesis by (simp add: step addChunk_keeps)
  next
    case False
    with Cons.prems have "w \<in> set xs" by simp
    from Cons.IH[OF this Cons.prems(2,3)] show ?thesis by (simp only: step)
  qed
qed

text \<open>
  Claim C1. After a build that returns, for every non-empty word \<open>w\<close> of the parsed word
  list and every split position \<open>i\<close> from 0 to the length of \<open>w\<close>, the path made of the
  reversed prefix \<open>w[0..i)\<close>, the delimiter and the suffix \<open>w[i..n)\<close> exists in the trie
  and ends at a node marked complete.
\<close>

theorem gaddag_holds_every_rotation:
  assumes "buildGaddagFromDictionaryService fs cwd dirname emptyGaddag addWord = Inr g"
  shows "\<exists>content.
           firstExisting fs (possiblePaths cwd dirname) = Some (Readable content) \<and>
           (\<forall>w\<in>set (parseWords content). w \<noteq> [] \<longrightarrow>
              (\<forall>i\<le>length w.
                 pathComplete g (map Letter (rev (take i w)) @ [Delimiter] @ map Letter (drop i w))))"
proof -
  from assms obtain content where f: "firstExisting fs (possiblePaths cwd dirname) = Some (Readable content)"
    and g: "g = chunkLoop addWord (parseWords content) 0 emptyGaddag"
    by (auto simp: buildGaddagFromDictionaryService_def split: option.splits fsEntry.splits)
  have "\<forall>w\<in>set (parseWords content). w \<noteq> [] \<longrightarrow>
              (\<forall>i\<le>length w.
                 pathComplete g (map Letter (rev (take i w)) @ [Delimiter] @ map Letter (drop i w)))"
    using addChunk_rotation[of _ "parseWords content" _ emptyGaddag]
    by (auto simp: g chunkLoop_all rotation_def)
  with f show ?thesis by blast
qed

theorem gaddag_holds_every_rotation_witness:
  "buildGaddagFromDictionaryService (wordFile ''cat\<newline>at'') ''/app'' ''/app/dist/services'' emptyGaddag addWord =
     Inr (chunkLoop addWord [''CAT'', ''AT''] 0 emptyGaddag) \<and>
   ''CAT'' \<in> set (parseWords ''cat\<newline>at'') \<and> (1::nat) \<le> length ''CAT'' \<and>
   pathComplete (chunkLoop addWord [''CAT'', ''AT''] 0 emptyGaddag)
     [Letter CHR ''C'', Delimiter, Letter CHR ''A'', Letter CHR ''T'']"
proof -
  have p: "parseWords ''cat\<newline>at'' = [''CAT'', ''AT'']" by code_simp
  have f: "firstExisting (wordFile ''cat\<newline>at'') (possiblePaths ''/app'' ''/app/dist/services'') =
      Some (Readable ''cat\<newline>at'')" by code_simp
  then have b: "buildGaddagFromDictionaryService (wordFile ''cat\<newline>at'') ''/app'' ''/app/dist/services'' emptyGaddag addWord =
     Inr (chunkLoop addWord [''CAT'', ''AT''] 0 emptyGaddag)"
    by (simp add: buildGaddagFromDictionaryService_def p)
  from gaddag_holds_every_rotation[OF b] f p
  have "\<forall>i\<le>length ''CAT''. pathComplete (chunkLoop addWord [''CAT'', ''AT''] 0 emptyGaddag)
          (map Letter (rev (take i ''CAT'')) @ [Delimiter] @ map Letter (drop i ''CAT''))"
    by auto
  then have "(1::nat) \<le> length ''CAT'' \<longrightarrow> pathComplete (chunkLoop addWord [''CAT'', ''AT''] 0 emptyGaddag)
          (map Letter (rev (take 1 ''CAT'')) @ [Delimiter] @ map Letter (drop 1 ''CAT''))"
    by (rule spec)
  with b p show ?thesis by simp
qed

section \<open>Properties of the initialization\<close>

lemma singleFlight_initialize: "singleFlight rt \<Longrightarrow> singleFlight (initialize rt)"
  by (auto simp: singleFlight_def initialize_def)

lemma singleFlight_resume: "singleFlight rt \<Longrightarrow> singleFlight (resume k settled rt)"
proof -
  assume s: "singleFlight rt"
  show ?thesis
  proof (cases "k < length (running rt)")
    case False
    with s show ?thesis by (simp add: resume_def)
  next
    case True
    with s have k: "k = 0" and one: "length (running rt) = 1" by (auto simp: singleFlight_def)
    then obtain st where r: "running rt = [st]" by (cases "running rt") auto
    with s k show ?thesis
      by (cases st; cases settled) (auto simp: resume_def singleFlight_def endActivation_def split: prod.splits)
  qed
qed

lemma singleFlight_step: "singleFlight rt \<Longrightarrow> singleFlight (step ev rt)"
proof (cases ev)
  case CallInitialize
  assume "singleFlight rt"
  with CallInitialize show ?thesis by (simp add: singleFlight_initialize)
next
  case CallEnsureInitialized
  assume "singleFlight rt"
  then have "singleFlight (initialize rt)" by (rule singleFlight_initialize)
  then have "singleFlight ((initialize rt)\<lparr>initPromise := Some (promisesMade rt)\<rparr>)"
    by (simp add: singleFlight_def)
  with \<open>singleFlight rt\<close> CallEnsureInitialized show ?thesis
    by (simp add: ensureInitialized_def split: option.splits)
next
  case (Resume k settled)
  assume "singleFlight rt"
  with Resume show ?thesis by (simp add: singleFlight_resume)
qed

lemma singleFlight_run: "singleFlight rt \<Longrightarrow> singleFlight (run evs rt)"
  unfolding run_def by (induction evs arbitrary: rt) (simp_all add: singleFlight_step)

lemma singleFlight_initial: "singleFlight initialRuntime"
  by (simp add: singleFlight_def initialRuntime_def)

lemma ready_step: "ready rt \<Longrightarrow> ready (step ev rt) \<and> buildsStarted (step ev rt) = buildsStarted rt"
proof (cases ev)
  case CallInitialize
  assume "ready rt"
  with CallInitialize show ?thesis by (simp add: ready_def initialize_def)
next
  case CallEnsureInitialized
  assume "ready rt"
  with CallEnsureInitialized show ?thesis
    by (auto simp: ready_def ensureInitialized_def initialize_def split: option.splits)
next
  case (Resume k settled)
  assume "ready rt"
  with Resume show ?thesis
    by (auto simp: ready_def resume_def endActivation_def split: sum.splits prod.splits stage.splits)
qed

lemma ready_run: "ready rt \<Longrightarrow> ready (run evs rt) \<and> buildsStarted (run evs rt) = buildsStarted rt"
  unfolding run_def
proof (induction evs arbitrary: rt)
  case Nil
  then show ?case by simp
next
  case (Cons ev evs)
  from ready_step[OF Cons.prems, of ev] Cons.IH[of "step ev rt"] show ?case by simp
qed

lemma initPromise_step: "initPromise rt = Some p \<Longrightarrow> initPromise (step ev rt) = Some p"
proof (cases ev)
  case CallInitialize
  assume "initPromise rt = Some p"
  with CallInitialize show ?thesis by (simp add: initialize_def)
next
  case CallEnsureInitialized
  assume "initPromise rt = Some p"
  with CallEnsureInitialized show ?thesis by (simp add: ensureInitialized_def)
next
  case (Resume k settled)
  assume "initPromise rt = Some p"
  with Resume show ?thesis
    by (auto simp: resume_def endActivation_def split: sum.splits prod.splits stage.splits)
qed

lemma initPromise_run: "initPromise rt = Some p \<Longrightarrow> initPromise (run evs rt) = Some p"
  unfolding run_def by (induction evs arbitrary: rt) (simp_all add: initPromise_step)

lemma onceOnly_step: "onceOnly rt \<Longrightarrow> ev \<noteq> CallInitialize \<Longrightarrow> onceOnly (step ev rt)"
proof (cases ev)
  case CallInitialize
  assume "ev \<noteq> CallInitialize"
  with CallInitialize show ?thesis by simp
next
  case CallEnsureInitialized
  assume "onceOnly rt"
  with CallEnsureInitialized show ?thesis
    by (auto simp: onceOnly_def ensureInitialized_def initialize_def split: option.splits)
next
  case (Resume k settled)
  assume "onceOnly rt"
  with Resume show ?thesis
    by (auto simp: onceOnly_def resume_def endActivation_def split: sum.splits prod.splits stage.splits)
qed

lemma onceOnly_run: "onceOnly rt \<Longrightarrow> CallInitialize \<notin> set evs \<Longrightarrow> onceOnly (run evs rt)"
  unfolding run_def
proof (induction evs arbitrary: rt)
  case Nil
  then show ?case by simp
next
  case (Cons ev evs)
  then have "ev \<noteq> CallInitialize" "CallInitialize \<notin> set evs" by auto
  with Cons.prems(1) Cons.IH[of "step ev rt"] show ?case by (simp add: onceOnly_step)
qed

lemma onceOnly_initial: "onceOnly initialRuntime"
  by (simp add: onceOnly_def initialRuntime_def)

text \<open>
  Claim C8. In every state reached from the initial one by calls of \<open>initialize\<close> and
  \<open>ensureInitialized\<close> and by resumptions of suspended activations, in any order: at most
  one activation of \<open>initialize\<close> is past the guard, and \<open>isInitializing\<close> says whether
  one is;
  \<open>ensureInitialized\<close> assigns \<open>initPromise\<close> only when it is null, and once it is set
  every call awaits that same promise and nothing changes it; once \<open>gaddag\<close> and
  \<open>dictionary\<close> are both set, \<open>initialize\<close> returns at once and no later sequence of
  events starts another construction; and when \<open>initialize\<close> is only reached through
  \<open>ensureInitialized\<close>, at most one construction is ever started.
\<close>

theorem initialization_builds_once:
  fixes evs later :: "'g event list"
  shows "length (running (run evs initialRuntime)) \<le> 1 \<and>
   (isInitializing (run evs initialRuntime) \<longleftrightarrow> running (run evs initialRuntime) \<noteq> []) \<and>
   (initPromise (run evs initialRuntime) = None \<longrightarrow>
      initPromise (snd (ensureInitialized (run evs initialRuntime))) =
        Some (promisesMade (run evs initialRuntime))) \<and>
   (\<forall>p. initPromise (run evs initialRuntime) = Some p \<longrightarrow>
      ensureInitialized (run evs initialRuntime) = (p, run evs initialRuntime) \<and>
      initPromise (run later (run evs initialRuntime)) = Some p) \<and>
   (gaddag (run evs initialRuntime) \<noteq> None \<and> dictionary (run evs initialRuntime) \<noteq> None \<longrightarrow>
      initialize (run evs initialRuntime) =
        (run evs initialRuntime)\<lparr>promisesMade := Suc (promisesMade (run evs initialRuntime))\<rparr> \<and>
      buildsStarted (run later (run evs initialRuntime)) = buildsStarted (run evs initialRuntime)) \<and>
   (CallInitialize \<notin> set evs \<longrightarrow> buildsStarted (run evs initialRuntime) \<le> 1)"
proof -
  let ?rt = "run evs initialRuntime :: 'g Runtime"
  have sf: "singleFlight ?rt" by (rule singleFlight_run[OF singleFlight_initial])
  have 1: "length (running ?rt) \<le> 1" "isInitializing ?rt \<longleftrightarrow> running ?rt \<noteq> []"
    using sf by (simp_all add: singleFlight_def)
  have 2: "initPromise ?rt = None \<longrightarrow> initPromise (snd (ensureInitialized ?rt)) = Some (promisesMade ?rt)"
    by (simp add: ensureInitialized_def)
  have 3: "\<forall>p. initPromise ?rt = Some p \<longrightarrow>
      ensureInitialized ?rt = (p, ?rt) \<and> initPromise (run later ?rt) = Some p"
    by (simp add: ensureInitialized_def initPromise_run)
  have 4: "gaddag ?rt \<noteq> None \<and> dictionary ?rt \<noteq> None \<longrightarrow>
      initialize ?rt = ?rt\<lparr>promisesMade := Suc (promisesMade ?rt)\<rparr> \<and>
      buildsStarted (run later ?rt) = buildsStarted ?rt"
  proof
    assume r: "gaddag ?rt \<noteq> None \<and> dictionary ?rt \<noteq> None"
    then have "ready ?rt" by (simp add: ready_def)
    from ready_run[OF this, of later] r
    show "initialize ?rt = ?rt\<lparr>promisesMade := Suc (promisesMade ?rt)\<rparr> \<and>
      buildsStarted (run later ?rt) = buildsStarted ?rt"
      by (simp add: initialize_def)
  qed
  have 5: "CallInitialize \<notin> set evs \<longrightarrow> buildsStarted ?rt \<le> 1"
    using onceOnly_run[OF onceOnly_initial, of evs] by (simp add: onceOnly_def)
  from 1 2 3 4 5 show ?thesis by blast
qed

theorem initialization_builds_once_witness:
  "gaddag (run [CallEnsureInitialized, Resume 0 (Inr ((), {''CAT''})), CallEnsureInitialized,
                Resume 0 (Inr ((), {''CAT''})), Resume 0 (Inr ((), {''CAT''}))] (initialRuntime :: unit Runtime)) \<noteq> None \<and>
   dictionary (run [CallEnsureInitialized, Resume 0 (Inr ((), {''CAT''})), CallEnsureInitialized,
                Resume 0 (Inr ((), {''CAT''})), Resume 0 (Inr ((), {''CAT''}))] (initialRuntime :: unit Runtime)) \<noteq> None \<and>
   initPromise (run [CallEnsureInitialized, Resume 0 (Inr ((), {''CAT''})), CallEnsureInitialized,
                Resume 0 (Inr ((), {''CAT''})), Resume 0 (Inr ((), {''CAT''}))] (initialRuntime :: unit Runtime)) = Some 0 \<and>
   buildsStarted (run [CallEnsureInitialized, Resume 0 (Inr ((), {''CAT''})), CallEnsureInitialized,
                Resume 0 (Inr ((), {''CAT''})), Resume 0 (Inr ((), {''CAT''}))] (initialRuntime :: unit Runtime)) = 1 \<and>
   buildsStarted (run [CallInitialize, CallEnsureInitialized, Resume 0 (Inr ((), {''DOG''}))]
      (run [CallEnsureInitialized, Resume 0 (Inr ((), {''CAT''})), CallEnsureInitialized,
            Resume 0 (Inr ((), {''CAT''})), Resume 0 (Inr ((), {''CAT''}))] (initialRuntime :: unit Runtime))) = 1 \<and>
   initPromise (run [CallInitialize, CallEnsureInitialized, Resume 0 (Inr ((), {''DOG''}))]
      (run [CallEnsureInitialized, Resume 0 (Inr ((), {''CAT''})), CallEnsureInitialized,
            Resume 0 (Inr ((), {''CAT''})), Resume 0 (Inr ((), {''CAT''}))] (initialRuntime :: unit Runtime))) = Some 0"
proof -
  let ?evs = "[CallEnsureInitialized, Resume 0 (Inr ((), {''CAT''})), CallEnsureInitialized,
                Resume 0 (Inr ((), {''CAT''})), Resume 0 (Inr ((), {''CAT''}))] :: unit event list"
  let ?later = "[CallInitialize, CallEnsureInitialized, Resume 0 (Inr ((), {''DOG''}))] :: unit event list"
  have r: "run ?evs (initialRuntime :: unit Runtime) =
      \<lparr>gaddag = Some (), dictionary = Some {''CAT''}, initPromise = Some 0,
       isInitializing = False, running = [], buildsStarted = 1, promisesMade = 1\<rparr>"
    by (simp add: run_def initialRuntime_def ensureInitialized_def initialize_def resume_def endActivation_def)
  then have h: "gaddag (run ?evs (initialRuntime :: unit Runtime)) \<noteq> None"
    "dictionary (run ?evs (initialRuntime :: unit Runtime)) \<noteq> None"
    "initPromise (run ?evs (initialRuntime :: unit Runtime)) = Some 0"
    "buildsStarted (run ?evs (initialRuntime :: unit Runtime)) = 1"
    by simp_all
  from initialization_builds_once[of ?evs ?later] h
  have "buildsStarted (run ?later (run ?evs initialRuntime)) = buildsStarted (run ?evs (initialRuntime :: unit Runtime))"
    "initPromise (run ?later (run ?evs (initialRuntime :: unit Runtime))) = Some 0"
    by blast+
  with h show ?thesis by simp
qed

section \<open>Properties of the score\<close>

lemma createEmptyBoard_tile: "tileOn createEmptyBoard r c = None"
  by (auto simp: tileOn_def createEmptyBoard_def)

lemma tilesBefore_none: "(\<And>k. line k = None) \<Longrightarrow> tilesBefore line n = []"
  by (cases n) simp_all

lemma tilesAfter_none: "(\<And>k. line k = None) \<Longrightarrow> tilesAfter line k n = []"
  by (cases n) simp_all

lemma crossLine_empty: "crossLine createEmptyBoard cand i k = None"
  by (simp add: crossLine_def Let_def createEmptyBoard_tile)

lemma perpendicularWord_empty:
  "perpendicularWord createEmptyBoard cand i = [primaryCell createEmptyBoard cand i]"
  by (simp add: perpendicularWord_def Let_def tilesBefore_none tilesAfter_none crossLine_empty)

lemma wordsFormed_empty:
  "wordsFormed createEmptyBoard cand = [primaryWord createEmptyBoard cand]"
proof -
  have "filter (\<lambda>cells. length cells > 1) (map (perpendicularWord createEmptyBoard cand) is) = []" for "is"
    by (induction "is") (simp_all add: perpendicularWord_empty)
  then show ?thesis by (simp add: wordsFormed_def)
qed

lemma primaryCell_empty:
  "primaryCell createEmptyBoard cand i =
     newCell createEmptyBoard (candRow cand i) (candCol cand i) (cand_tiles cand ! i)"
  by (simp add: primaryCell_def Let_def createEmptyBoard_tile)

lemma primaryWord_four:
  assumes "cand_tiles cand = [t0, t1, t2, t3]"
  shows "primaryWord createEmptyBoard cand =
     [newCell createEmptyBoard (candRow cand 0) (candCol cand 0) t0,
      newCell createEmptyBoard (candRow cand 1) (candCol cand 1) t1,
      newCell createEmptyBoard (candRow cand 2) (candCol cand 2) t2,
      newCell createEmptyBoard (candRow cand 3) (candCol cand 3) t3]"
proof -
  have u: "[0..<length [t0, t1, t2, t3]] = [0, 1, 2, 3::nat]" by code_simp
  show ?thesis unfolding primaryWord_def assms u by (simp add: primaryCell_empty assms)
qed

lemma centre_row:
  "multiplierOn createEmptyBoard 7 4 = None" "multiplierOn createEmptyBoard 7 5 = None"
  "multiplierOn createEmptyBoard 7 6 = None" "multiplierOn createEmptyBoard 7 7 = Some CENTER"
  "multiplierOn createEmptyBoard 7 8 = None" "multiplierOn createEmptyBoard 7 9 = None"
  "multiplierOn createEmptyBoard 7 10 = None"
  by code_simp+

lemma centre_col:
  "multiplierOn createEmptyBoard 4 7 = None" "multiplierOn createEmptyBoard 5 7 = None"
  "multiplierOn createEmptyBoard 6 7 = None"
  "multiplierOn createEmptyBoard 8 7 = None" "multiplierOn createEmptyBoard 9 7 = None"
  "multiplierOn createEmptyBoard 10 7 = None"
  by code_simp+

lemma score_four_on_empty_board:
  assumes t: "cand_tiles cand = [t0, t1, t2, t3]"
  shows "totalScore bonus createEmptyBoard cand = wordScore (primaryWord createEmptyBoard cand)"
    and "map snd (scoredWords createEmptyBoard cand) = [wordScore (primaryWord createEmptyBoard cand)]"
    and "wordScore (primaryWord createEmptyBoard cand) =
       (tile_value t0 * letterMultiplier (multiplierOn createEmptyBoard (candRow cand 0) (candCol cand 0)) +
        tile_value t1 * letterMultiplier (multiplierOn createEmptyBoard (candRow cand 1) (candCol cand 1)) +
        tile_value t2 * letterMultiplier (multiplierOn createEmptyBoard (candRow cand 2) (candCol cand 2)) +
        tile_value t3 * letterMultiplier (multiplierOn createEmptyBoard (candRow cand 3) (candCol cand 3))) *
       (wordMultiplier (multiplierOn createEmptyBoard (candRow cand 0) (candCol cand 0)) *
        wordMultiplier (multiplierOn createEmptyBoard (candRow cand 1) (candCol cand 1)) *
        wordMultiplier (multiplierOn createEmptyBoard (candRow cand 2) (candCol cand 2)) *
        wordMultiplier (multiplierOn createEmptyBoard (candRow cand 3) (candCol cand 3)))"
proof -
  have placed: "tilesPlaced createEmptyBoard cand \<noteq> maxRackSize"
    by (simp add: tilesPlaced_def primaryWord_four[OF t] newCell_def maxRackSize_def)
  then show "totalScore bonus createEmptyBoard cand = wordScore (primaryWord createEmptyBoard cand)"
    by (simp add: totalScore_def wordsFormed_empty)
  show "map snd (scoredWords createEmptyBoard cand) = [wordScore (primaryWord createEmptyBoard cand)]"
    by (simp add: scoredWords_def wordsFormed_empty)
  show "wordScore (primaryWord createEmptyBoard cand) =
       (tile_value t0 * letterMultiplier (multiplierOn createEmptyBoard (candRow cand 0) (candCol cand 0)) +
        tile_value t1 * letterMultiplier (multiplierOn createEmptyBoard (candRow cand 1) (candCol cand 1)) +
        tile_value t2 * letterMultiplier (multiplierOn createEmptyBoard (candRow cand 2) (candCol cand 2)) +
        tile_value t3 * letterMultiplier (multiplierOn createEmptyBoard (candRow cand 3) (candCol cand 3))) *
       (wordMultiplier (multiplierOn createEmptyBoard (candRow cand 0) (candCol cand 0)) *
        wordMultiplier (multiplierOn createEmptyBoard (candRow cand 1) (candCol cand 1)) *
        wordMultiplier (multiplierOn createEmptyBoard (candRow cand 2) (candCol cand 2)) *
        wordMultiplier (multiplierOn createEmptyBoard (candRow cand 3) (candCol cand 3)))"
    by (simp add: primaryWord_four[OF t] wordScore_def newCell_def)
qed

lemma multipliers_plain:
  "letterMultiplier None = 1" "wordMultiplier None = 1"
  "letterMultiplier (Some CENTER) = 1" "wordMultiplier (Some CENTER) = 2"
  by (simp_all add: letterMultiplier_def wordMultiplier_def)

text \<open>
  Claim C5. On the empty board, four tiles worth 3, 1, 1 and 1 (C, A, T, S) placed in a
  line through the centre, across or down, form one word that covers no multiplier but the
  centre; its score, and the total of the move whatever the bonus, is (3+1+1+1) * 2 = 12.
\<close>

theorem cats_through_centre_scores_12:
  assumes "map tile_value (cand_tiles cand) = [3, 1, 1, 1]"
    and "(cand_dir cand = H \<and> cand_row cand = 7 \<and> cand_col cand \<in> {4, 5, 6, 7}) \<or>
         (cand_dir cand = V \<and> cand_col cand = 7 \<and> cand_row cand \<in> {4, 5, 6, 7})"
  shows "totalScore bonus createEmptyBoard cand = (3 + 1 + 1 + 1) * 2 \<and>
         totalScore bonus createEmptyBoard cand = 12 \<and>
         map snd (scoredWords createEmptyBoard cand) = [12]"
proof -
  from assms(1) obtain t0 t1 t2 t3 where t: "cand_tiles cand = [t0, t1, t2, t3]"
    and v: "tile_value t0 = 3" "tile_value t1 = 1" "tile_value t2 = 1" "tile_value t3 = 1"
    by (auto simp: map_eq_Cons_conv)
  note s = score_four_on_empty_board[OF t]
  from assms(2) consider
      "cand_dir cand = H" "cand_row cand = 7" "cand_col cand = 4"
    | "cand_dir cand = H" "cand_row cand = 7" "cand_col cand = 5"
    | "cand_dir cand = H" "cand_row cand = 7" "cand_col cand = 6"
    | "cand_dir cand = H" "cand_row cand = 7" "cand_col cand = 7"
    | "cand_dir cand = V" "cand_col cand = 7" "cand_row cand = 4"
    | "cand_dir cand = V" "cand_col cand = 7" "cand_row cand = 5"
    | "cand_dir cand = V" "cand_col cand = 7" "cand_row cand = 6"
    | "cand_dir cand = V" "cand_col cand = 7" "cand_row cand = 7"
    by auto
  then have "wordScore (primaryWord createEmptyBoard cand) = 12"
  proof cases
    case 1
    then show ?thesis by (simp add: s(3) v candRow_def candCol_def centre_row multipliers_plain)
  next
    case 2
    then show ?thesis by (simp add: s(3) v candRow_def candCol_def centre_row multipliers_plain)
  next
    case 3
    then show ?thesis by (simp add: s(3) v candRow_def candCol_def centre_row multipliers_plain)
  next
    case 4
    then show ?thesis by (simp add: s(3) v candRow_def candCol_def centre_row multipliers_plain)
  next
    case 5
    then show ?thesis by (simp add: s(3) v candRow_def candCol_def centre_row centre_col multipliers_plain)
  next
    case 6
    then show ?thesis by (simp add: s(3) v candRow_def candCol_def centre_row centre_col multipliers_plain)
  next
    case 7
    then show ?thesis by (simp add: s(3) v candRow_def candCol_def centre_row centre_col multipliers_plain)
  next
    case 8
    then show ?thesis by (simp add: s(3) v candRow_def candCol_def centre_row centre_col multipliers_plain)
  qed
  with s(1)[of bonus] s(2) show ?thesis by simp
qed

theorem cats_through_centre_scores_12_witness:
  "map tile_value catsTiles = [3, 1, 1, 1] \<and>
   totalScore 50 createEmptyBoard \<lparr>cand_row = 7, cand_col = 4, cand_dir = H, cand_tiles = catsTiles\<rparr> = 12 \<and>
   totalScore 50 createEmptyBoard \<lparr>cand_row = 7, cand_col = 7, cand_dir = V, cand_tiles = catsTiles\<rparr> = 12"
proof -
  have v: "map tile_value catsTiles = [3, 1, 1, 1]" by (simp add: catsTiles_def plainTile_def)
  from cats_through_centre_scores_12[of "\<lparr>cand_row = 7, cand_col = 4, cand_dir = H, cand_tiles = catsTiles\<rparr>" 50]
       cats_through_centre_scores_12[of "\<lparr>cand_row = 7, cand_col = 7, cand_dir = V, cand_tiles = catsTiles\<rparr>" 50] v
  show ?thesis by simp
qed

text \<open>
  The same rule on an occupied board: adding S to the CAT already on the board forms CATS
  with one new cell, on a plain square, so the centre under the C no longer counts.
\<close>

lemma extending_cat_scores_letters_only:
  "scoredWords boardWithCat \<lparr>cand_row = 7, cand_col = 7, cand_dir = H, cand_tiles = catsTiles\<rparr> =
     [(''CATS'', 6)] \<and>
   totalScore 50 boardWithCat \<lparr>cand_row = 7, cand_col = 7, cand_dir = H, cand_tiles = catsTiles\<rparr> = 6"
  by code_simp

end
